theory Spec2Isabelle
  imports Complex_Main
begin

section \<open>The notebook's data model\<close>

text \<open>
  The repository is one notebook, \<^verbatim>\<open>tutorial_pytorch_image_classification.ipynb\<close>.
  Its code cells are embedded cell by cell: the dataset class \<^verbatim>\<open>FlowerDataset\<close>, the
  data loaders, the training cell and the inference cell.

  Conventions of the embedding.
  \<^item> A Python exception is a value of \<open>py_error\<close>; a function that may raise returns
    \<open>py_error + 'a\<close>.
  \<^item> Python floats (losses, accuracies) are modelled by \<open>real\<close>: the theorems say which
    quantities the code combines, not how IEEE arithmetic rounds them.
  \<^item> Strings are byte strings (UTF-8). What \<^verbatim>\<open>str.lower\<close> makes of a string with a byte
    outside ASCII is given by a parameter, \<open>unicode_lower\<close>.
  \<^item> The CSV files are given as already parsed tables (lists of rows).
  \<^item> The network, the loss function, the optimiser's update rule and the image decoder
    belong to libraries; they are parameters of the model.
\<close>

datatype py_error =
  KeyError | ValueError | AttributeError | IndexError | RuntimeError
  | FileNotFoundError | ZeroDivisionError

text \<open>
  A cell of the class_name column, as \<^verbatim>\<open>pd.read_csv\<close> hands it over: a column that holds
  integer literals only is read as integers, any other column as strings; a cell without
  a value is NaN. (Columns of floating-point or boolean literals are not modelled.)
\<close>

datatype cell = NaN | Str string | Num int

text \<open>One row of \<^verbatim>\<open>my_data\<close>, the frame \<^verbatim>\<open>FlowerDataset.__init__\<close> builds. A tag
  that pandas fills with NaN is \<open>None\<close>.\<close>

record index_row =
  file_name :: string
  class_name :: cell
  tag :: "string option"

subsection \<open>FlowerDataset.__init__\<close>

text \<open>
  \<^verbatim>\<open>my_data = pd.read_csv(annotations, index_col='file_name')\<close>
  \<^verbatim>\<open>my_data['tag'] = pd.read_csv(train_test_valid_split, index_col='file_name')\<close>

  The annotations table is a list of pairs (file_name, class_name), the tags table a list
  of pairs (file_name, tag). Assigning the tags frame to the column aligns it with the index
  of \<^verbatim>\<open>my_data\<close>, as pandas does it:
  \<^item> a frame without rows takes over the index of a non-empty assigned frame
    (\<^verbatim>\<open>DataFrame._ensure_valid_index\<close>), its other columns filled with NaN;
  \<^item> when both indexes are equal, the values are copied position by position;
  \<^item> otherwise the assigned frame is reindexed by the index of \<^verbatim>\<open>my_data\<close>: this raises
    ValueError when the assigned index has a duplicate, and gives NaN to every file_name
    the tags table does not have.
\<close>

definition set_tag_column ::
  "(string \<times> cell) list \<Rightarrow> (string \<times> string) list \<Rightarrow> py_error + index_row list" where
  "set_tag_column annotations tags =
     (if annotations = [] \<and> tags \<noteq> [] then
        Inr (map (\<lambda>(f, t). \<lparr>file_name = f, class_name = NaN, tag = Some t\<rparr>) tags)
      else if map fst tags = map fst annotations then
        Inr (map (\<lambda>((f, c), (f', t)). \<lparr>file_name = f, class_name = c, tag = Some t\<rparr>)
               (zip annotations tags))
      else if \<not> distinct (map fst tags) then Inl ValueError
      else
        Inr (map (\<lambda>(f, c). \<lparr>file_name = f, class_name = c, tag = map_of tags f\<rparr>)
               annotations))"

text \<open>
  \<^verbatim>\<open>my_data = my_data.loc[my_data['tag'] == mode].reset_index(drop=True)\<close>

  A NaN tag is equal to no mode. The rows keep their order and are renumbered from 0.
\<close>

definition build_index ::
  "(string \<times> cell) list \<Rightarrow> (string \<times> string) list \<Rightarrow> string \<Rightarrow> py_error + index_row list" where
  "build_index annotations tags md =
     (case set_tag_column annotations tags of
        Inl e \<Rightarrow> Inl e
      | Inr rows \<Rightarrow> Inr (filter (\<lambda>r. tag r = Some md) rows))"

text \<open>The object: \<^verbatim>\<open>self.data\<close>, \<^verbatim>\<open>self.mapping\<close>, \<^verbatim>\<open>self.mode\<close>,
  \<^verbatim>\<open>self.transform\<close>. The mapping takes a lower-cased class name to its class index, an
  integer, on which \<^verbatim>\<open>int\<close> is the identity.
  The transform is the caller's; it may raise, as when it decodes a damaged file.\<close>

record 'img FlowerDataset =
  data :: "index_row list"
  mapping :: "(string \<rightharpoonup> int) option"
  mode :: string
  transform :: "('img \<Rightarrow> py_error + 'img) option"

definition FlowerDataset_init ::
  "(string \<times> cell) list \<Rightarrow> (string \<times> string) list \<Rightarrow> (string \<rightharpoonup> int) option \<Rightarrow> string
     \<Rightarrow> ('img \<Rightarrow> py_error + 'img) option \<Rightarrow> py_error + 'img FlowerDataset" where
  "FlowerDataset_init annotations train_test_valid_split mp md tf =
     (case build_index annotations train_test_valid_split md of
        Inl e \<Rightarrow> Inl e
      | Inr rows \<Rightarrow> Inr \<lparr>data = rows, mapping = mp, mode = md, transform = tf\<rparr>)"

definition FlowerDataset_len :: "'img FlowerDataset \<Rightarrow> nat" where
  "FlowerDataset_len ds = length (data ds)"

subsection \<open>FlowerDataset.__getitem__\<close>

definition lower_char :: "char \<Rightarrow> char" where
  "lower_char c =
     (if (65::nat) \<le> of_char c \<and> of_char c \<le> (90::nat) then char_of (of_char c + (32::nat)) else c)"

definition is_ascii :: "char \<Rightarrow> bool" where
  "is_ascii c = (of_char c < (128::nat))"

text \<open>\<^verbatim>\<open>str.lower\<close>: on a string of ASCII characters it turns the letters A to Z into a to
  z and leaves the rest; on any other string it is Unicode's lower-casing, the parameter
  \<open>unicode_lower\<close>.\<close>

definition lower :: "(string \<Rightarrow> string) \<Rightarrow> string \<Rightarrow> string" where
  "lower unicode_lower s = (if list_all is_ascii s then map lower_char s else unicode_lower s)"

text \<open>\<^verbatim>\<open>int(s)\<close> on a string: surrounding blanks are dropped, then an optional sign and
  at least one decimal digit; anything else raises ValueError. (Underscores between
  digits, which Python also accepts, are not modelled.)\<close>

definition is_digit :: "char \<Rightarrow> bool" where
  "is_digit c = ((48::nat) \<le> of_char c \<and> of_char c \<le> (57::nat))"

definition is_blank :: "char \<Rightarrow> bool" where
  "is_blank c = (of_char c \<in> {9::nat, 10, 11, 12, 13, 32})"

definition digits_value :: "string \<Rightarrow> int" where
  "digits_value s = foldl (\<lambda>a c. 10 * a + (int (of_char c) - 48)) 0 s"

definition parse_digits :: "string \<Rightarrow> int option" where
  "parse_digits s = (if s \<noteq> [] \<and> list_all is_digit s then Some (digits_value s) else None)"

definition strip :: "string \<Rightarrow> string" where
  "strip s = rev (dropWhile is_blank (rev (dropWhile is_blank s)))"

definition py_int :: "string \<Rightarrow> py_error + int" where
  "py_int s =
     (case (case strip s of
              c # cs \<Rightarrow> if c = CHR ''-'' then map_option uminus (parse_digits cs)
                        else if c = CHR ''+'' then parse_digits cs
                        else parse_digits (c # cs)
            | [] \<Rightarrow> None) of
        None \<Rightarrow> Inl ValueError
      | Some v \<Rightarrow> Inr v)"

text \<open>The dictionary \<^verbatim>\<open>__getitem__\<close> returns: the keys \<^verbatim>\<open>'im'\<close>, \<^verbatim>\<open>'labels'\<close> and,
  in test mode only, \<^verbatim>\<open>'im_name'\<close>.\<close>

record 'img sample =
  im :: 'img
  labels :: int
  im_name :: "string option"

text \<open>\<^verbatim>\<open>torch.as_tensor(labels, dtype=torch.long)\<close>: an integer that does not fit 64 bits
  raises RuntimeError.\<close>

definition as_tensor_long :: "int \<Rightarrow> py_error + int" where
  "as_tensor_long v = (if - (2 ^ 63) \<le> v \<and> v < 2 ^ 63 then Inr v else Inl RuntimeError)"

text \<open>
  \<open>image_open\<close> stands for \<^verbatim>\<open>Image.open\<close>: \<open>None\<close> when the file cannot be opened.
  \<^verbatim>\<open>self.data.loc[idx, ...]\<close> looks the row label \<open>idx\<close> up and raises KeyError when the
  frame has no such row. The statements of \<^verbatim>\<open>__getitem__\<close> run in this order: the label is
  resolved, \<^verbatim>\<open>int(self.mapping[self.data.loc[idx, 'class_name'].lower()])\<close> with a mapping,
  where a cell that is not a string has no method \<^verbatim>\<open>lower\<close> (AttributeError), and
  \<^verbatim>\<open>int(self.data.loc[idx, 'class_name'])\<close> without one, where a NaN raises ValueError; the
  label is made a tensor; the image is opened; the transform, if there is one, is applied
  and what it raises is raised; the dictionary is returned.
\<close>

definition resolve_label ::
  "(string \<Rightarrow> string) \<Rightarrow> (string \<rightharpoonup> int) option \<Rightarrow> cell \<Rightarrow> py_error + int" where
  "resolve_label unicode_lower mp cn =
     (case mp of
        Some m \<Rightarrow>
          (case cn of
             Str s \<Rightarrow>
               (case m (lower unicode_lower s) of None \<Rightarrow> Inl KeyError | Some v \<Rightarrow> Inr v)
           | Num n \<Rightarrow> Inl AttributeError
           | NaN \<Rightarrow> Inl AttributeError)
      | None \<Rightarrow>
          (case cn of
             Str s \<Rightarrow> py_int s
           | Num n \<Rightarrow> Inr n
           | NaN \<Rightarrow> Inl ValueError))"

definition FlowerDataset_getitem ::
  "(string \<Rightarrow> string) \<Rightarrow> (string \<Rightarrow> 'img option) \<Rightarrow> 'img FlowerDataset \<Rightarrow> nat
     \<Rightarrow> py_error + 'img sample" where
  "FlowerDataset_getitem unicode_lower image_open ds idx =
     (if length (data ds) \<le> idx then Inl KeyError
      else
        let row = data ds ! idx in
        case resolve_label unicode_lower (mapping ds) (class_name row) of
          Inl e \<Rightarrow> Inl e
        | Inr lbl \<Rightarrow>
            (case as_tensor_long lbl of
               Inl e \<Rightarrow> Inl e
             | Inr label_tensor \<Rightarrow>
                 (case image_open (file_name row) of
                    None \<Rightarrow> Inl FileNotFoundError
                  | Some img \<Rightarrow>
                      (case (case transform ds of None \<Rightarrow> Inr img | Some tf \<Rightarrow> tf img) of
                         Inl e \<Rightarrow> Inl e
                       | Inr img' \<Rightarrow>
                           if mode ds = ''test''
                           then Inr \<lparr>im = img', labels = label_tensor,
                                     im_name = Some (file_name row)\<rparr>
                           else Inr \<lparr>im = img', labels = label_tensor, im_name = None\<rparr>))))"

text \<open>The claim about the index counts, in the spec's words, the rows of the tags table
  that carry the requested tag and also have an entry in the annotations table.\<close>

definition tagged_with_label ::
  "(string \<times> cell) list \<Rightarrow> (string \<times> string) list \<Rightarrow> string \<Rightarrow> (string \<times> string) list" where
  "tagged_with_label annotations tags md =
     filter (\<lambda>(f, t). t = md \<and> f \<in> fst ` set annotations) tags"

text \<open>The mapping of the spec's lookup scenario.\<close>

definition scenario_mapping :: "string \<rightharpoonup> int" where
  "scenario_mapping =
     [''pink primrose'' \<mapsto> 0, ''hard-leaved pocket orchid'' \<mapsto> 1, ''canterbury bells'' \<mapsto> 2]"

subsection \<open>The data loaders\<close>

text \<open>
  \<^verbatim>\<open>torch.utils.data.DataLoader(dataset, batch_size, shuffle, num_workers=1)\<close>

  One pass over a loader takes the indices of the dataset in the sampler's order (\<open>[0..<n]\<close>
  without shuffling, a fresh permutation with it), cuts them into groups of \<open>batch_size\<close>
  (the last one may be shorter), fetches every sample of a group with \<^verbatim>\<open>__getitem__\<close> and
  collates them key by key. A sample that raises makes the loader raise when its batch is
  asked for: a pass is a list of batches or errors, read up to the first error.
  The batch size is positive (torch refuses any other).
\<close>

record 'img batch =
  batch_im :: "'img list"
  batch_labels :: "int list"
  batch_im_name :: "string list option"

function chunks :: "nat \<Rightarrow> 'a list \<Rightarrow> 'a list list" where
  "chunks n xs = (if n = 0 \<or> xs = [] then [] else take n xs # chunks n (drop n xs))"
  by pat_completeness auto
termination
  by (relation "measure (\<lambda>(n, xs). length xs)") auto

declare chunks.simps [simp del]

fun load_samples :: "(nat \<Rightarrow> py_error + 'a) \<Rightarrow> nat list \<Rightarrow> py_error + 'a list" where
  "load_samples getitem [] = Inr []"
| "load_samples getitem (i # idxs) =
     (case getitem i of
        Inl e \<Rightarrow> Inl e
      | Inr s \<Rightarrow> (case load_samples getitem idxs of Inl e \<Rightarrow> Inl e | Inr ss \<Rightarrow> Inr (s # ss)))"

text \<open>All samples of one dataset have the same keys, so the key \<^verbatim>\<open>'im_name'\<close> is in the
  batch exactly when it is in every sample.\<close>

definition collate :: "'img sample list \<Rightarrow> 'img batch" where
  "collate ss =
     \<lparr>batch_im = map im ss, batch_labels = map labels ss, batch_im_name = those (map im_name ss)\<rparr>"

definition DataLoader ::
  "(string \<Rightarrow> string) \<Rightarrow> (string \<Rightarrow> 'img option) \<Rightarrow> 'img FlowerDataset \<Rightarrow> nat \<Rightarrow> nat list
     \<Rightarrow> (py_error + 'img batch) list" where
  "DataLoader unicode_lower image_open dataset batch_size sampler =
     map (\<lambda>idxs. case load_samples (FlowerDataset_getitem unicode_lower image_open dataset) idxs of
                   Inl e \<Rightarrow> Inl e
                 | Inr ss \<Rightarrow> Inr (collate ss))
       (chunks batch_size sampler)"

definition sequential :: "'img FlowerDataset \<Rightarrow> nat list" where
  "sequential dataset = [0..<FlowerDataset_len dataset]"

text \<open>\<^verbatim>\<open>test_loader = torch.utils.data.DataLoader(test_dataset, batch_size=1, shuffle=False,
  num_workers=1)\<close>\<close>

definition test_loader ::
  "(string \<Rightarrow> string) \<Rightarrow> (string \<Rightarrow> 'img option) \<Rightarrow> 'img FlowerDataset
     \<Rightarrow> (py_error + 'img batch) list" where
  "test_loader unicode_lower image_open test_dataset =
     DataLoader unicode_lower image_open test_dataset 1 (sequential test_dataset)"

text \<open>
  \<^verbatim>\<open>train_loader = torch.utils.data.DataLoader(train_dataset, batch_size=5, shuffle=True,
  num_workers=1)\<close>
  \<^verbatim>\<open>val_loader = torch.utils.data.DataLoader(valid_dataset, batch_size=1, shuffle=False,
  num_workers=1)\<close>

  \<open>sampler\<close> is the order the shuffling loader draws for one pass.
\<close>

definition train_loader ::
  "(string \<Rightarrow> string) \<Rightarrow> (string \<Rightarrow> 'img option) \<Rightarrow> 'img FlowerDataset \<Rightarrow> nat list
     \<Rightarrow> (py_error + 'img batch) list" where
  "train_loader unicode_lower image_open train_dataset sampler =
     DataLoader unicode_lower image_open train_dataset 5 sampler"

definition val_loader ::
  "(string \<Rightarrow> string) \<Rightarrow> (string \<Rightarrow> 'img option) \<Rightarrow> 'img FlowerDataset
     \<Rightarrow> (py_error + 'img batch) list" where
  "val_loader unicode_lower image_open valid_dataset =
     DataLoader unicode_lower image_open valid_dataset 1 (sequential valid_dataset)"

text \<open>A \<^verbatim>\<open>for\<close> loop over a loader: the body runs on every batch in the loader's order;
  the loop ends at the first exception, of the loader or of the body, and the state
  reached by then stays.\<close>

fun for_each ::
  "('st \<Rightarrow> 'a \<Rightarrow> 'st \<times> py_error option) \<Rightarrow> 'st \<Rightarrow> (py_error + 'a) list \<Rightarrow> 'st \<times> py_error option" where
  "for_each body st [] = (st, None)"
| "for_each body st (Inl e # rest) = (st, Some e)"
| "for_each body st (Inr x # rest) =
     (case body st x of
        (st', Some e) \<Rightarrow> (st', Some e)
      | (st', None) \<Rightarrow> for_each body st' rest)"

subsection \<open>The network, the optimiser and the notebook's variables\<close>

text \<open>
  The library side of the training cell. \<open>'b\<close> is the value of the parameters of the
  pretrained ResNet-18 outside \<^verbatim>\<open>model.fc\<close> (the backbone), \<open>'h\<close> the value of the
  parameters of \<^verbatim>\<open>model.fc\<close> (the head); a gradient has the type of its parameters.
  \<open>'u\<close> is what a forward pass in training mode changes besides: the running statistics of
  the batch-norm layers and the random state of the dropout layer. \<open>'s\<close> is the state Adam
  keeps between steps.
  \<^item> \<open>forward_train\<close>, \<open>forward_eval\<close>: \<^verbatim>\<open>model(inputs)\<close> in the two modes; the output has
    one row of class scores per image.
  \<^item> \<open>criterion\<close>: \<^verbatim>\<open>nn.NLLLoss()\<close>, the mean loss of a batch, read with \<^verbatim>\<open>.item()\<close>.
  \<^item> \<open>gradients\<close>: what \<^verbatim>\<open>loss.backward()\<close> adds to the \<^verbatim>\<open>.grad\<close> of the backbone and of
    the head, for the forward pass made from the given parameters on the given batch.
  \<^item> \<open>adam\<close>: the update of \<^verbatim>\<open>optim.Adam(model.fc.parameters(), lr=0.001)\<close>, from its state,
    the parameters it was given and their gradients.
\<close>

record ('b, 'h, 'u, 's, 'img) net =
  forward_train :: "'b \<Rightarrow> 'h \<Rightarrow> 'u \<Rightarrow> 'img list \<Rightarrow> real list list \<times> 'u"
  forward_eval :: "'b \<Rightarrow> 'h \<Rightarrow> 'u \<Rightarrow> 'img list \<Rightarrow> real list list"
  criterion :: "real list list \<Rightarrow> int list \<Rightarrow> real"
  gradients :: "'b \<Rightarrow> 'h \<Rightarrow> 'u \<Rightarrow> 'img list \<Rightarrow> int list \<Rightarrow> 'b \<times> 'h"
  adam :: "'s \<Rightarrow> 'h \<Rightarrow> 'h \<Rightarrow> 's \<times> 'h"

text \<open>What the cells print, with the numbers before formatting.\<close>

datatype out_line =
  EpochNumber nat | TrainingLoss real | ValidationLoss real | ValidationAccuracy real
  | TestAccuracy int

text \<open>
  The state the cells work on: the model, the optimiser, the global variables of the
  training and inference cells, the predictions file and the output.
  A gradient that was never computed (\<^verbatim>\<open>None\<close>) is represented by 0.
  \<open>opt_steps\<close> counts the calls of \<^verbatim>\<open>optimizer.step()\<close>.
\<close>

record ('b, 'h, 'u, 's) notebook =
  backbone :: 'b
  backbone_grad :: 'b
  requires_grad :: bool
  required_grad :: "bool option"
  head :: 'h
  head_grad :: 'h
  buffers :: 'u
  training :: bool
  opt_state :: 's
  opt_steps :: nat
  training_loss :: real
  validation :: real
  val_acc :: real
  correct_preds :: nat
  total :: nat
  pred_list :: "(string \<times> string) list"
  model_predictions :: "(string \<times> string) list option"
  stdout :: "out_line list"

text \<open>
  \<^verbatim>\<open>for param in model.parameters(): param.required_grad = False\<close>

  The loop writes an attribute named \<^verbatim>\<open>required_grad\<close>. Autograd reads
  \<^verbatim>\<open>requires_grad\<close>, which stays as the pretrained model has it.
\<close>

definition freeze_weights :: "('b, 'h, 'u, 's) notebook \<Rightarrow> ('b, 'h, 'u, 's) notebook" where
  "freeze_weights st = st\<lparr>required_grad := Some False\<rparr>"

definition print_line :: "out_line \<Rightarrow> ('b, 'h, 'u, 's) notebook \<Rightarrow> ('b, 'h, 'u, 's) notebook" where
  "print_line l st = st\<lparr>stdout := stdout st @ [l]\<rparr>"

text \<open>\<^verbatim>\<open>model(inputs)\<close>\<close>

definition model_call ::
  "('b, 'h, 'u, 's, 'img) net \<Rightarrow> ('b, 'h, 'u, 's) notebook \<Rightarrow> 'img list
     \<Rightarrow> real list list \<times> ('b, 'h, 'u, 's) notebook" where
  "model_call nt st inputs =
     (if training st then
        (case forward_train nt (backbone st) (head st) (buffers st) inputs of
           (outputs, u) \<Rightarrow> (outputs, st\<lparr>buffers := u\<rparr>))
      else (forward_eval nt (backbone st) (head st) (buffers st) inputs, st))"

text \<open>\<^verbatim>\<open>optimizer.zero_grad()\<close>: the optimiser holds the parameters of \<^verbatim>\<open>model.fc\<close> only.\<close>

definition zero_grad :: "('b, 'h::zero, 'u, 's) notebook \<Rightarrow> ('b, 'h, 'u, 's) notebook" where
  "zero_grad st = st\<lparr>head_grad := 0\<rparr>"

text \<open>\<^verbatim>\<open>loss.backward()\<close>: the gradients of this batch's loss are added to \<^verbatim>\<open>.grad\<close> of every
  parameter that requires a gradient. \<open>u0\<close> is the network's remaining state when the
  forward pass started.\<close>

definition loss_backward ::
  "('b::plus, 'h::plus, 'u, 's, 'img) net \<Rightarrow> 'u \<Rightarrow> 'img list \<Rightarrow> int list
     \<Rightarrow> ('b, 'h, 'u, 's) notebook \<Rightarrow> ('b, 'h, 'u, 's) notebook" where
  "loss_backward nt u0 inputs lbls st =
     (case gradients nt (backbone st) (head st) u0 inputs lbls of
        (gb, gh) \<Rightarrow>
          st\<lparr>backbone_grad := (if requires_grad st then backbone_grad st + gb else backbone_grad st),
             head_grad := head_grad st + gh\<rparr>)"

text \<open>\<^verbatim>\<open>optimizer.step()\<close>\<close>

definition optimizer_step ::
  "('b, 'h, 'u, 's, 'img) net \<Rightarrow> ('b, 'h, 'u, 's) notebook \<Rightarrow> ('b, 'h, 'u, 's) notebook" where
  "optimizer_step nt st =
     (case adam nt (opt_state st) (head st) (head_grad st) of
        (s, h) \<Rightarrow> st\<lparr>opt_state := s, head := h, opt_steps := opt_steps st + 1\<rparr>)"

text \<open>\<^verbatim>\<open>_, index = torch.max(outputs, 1)\<close>: for every row the position of its greatest score
  (the first one, where several are equal).\<close>

fun argmax_from :: "nat \<Rightarrow> real \<Rightarrow> nat \<Rightarrow> real list \<Rightarrow> nat" where
  "argmax_from best bv i [] = best"
| "argmax_from best bv i (x # xs) =
     (if bv < x then argmax_from i x (Suc i) xs else argmax_from best bv (Suc i) xs)"

definition argmax :: "real list \<Rightarrow> nat" where
  "argmax row = (case row of [] \<Rightarrow> 0 | x # xs \<Rightarrow> argmax_from 0 x 1 xs)"

text \<open>\<^verbatim>\<open>(index == labels).sum().item()\<close>\<close>

definition count_correct :: "real list list \<Rightarrow> int list \<Rightarrow> nat" where
  "count_correct outputs lbls =
     length (filter (\<lambda>(row, l). int (argmax row) = l) (zip outputs lbls))"


subsection \<open>The training cell\<close>

text \<open>
  The body of the loop over the training batches:
  \<^verbatim>\<open>inputs, labels = data['im'].to(device), data['labels'].to(device)\<close>
  \<^verbatim>\<open>outputs = model(inputs)\<close>
  \<^verbatim>\<open>optimizer.zero_grad()\<close>
  \<^verbatim>\<open>loss = criterion(outputs, labels)\<close>
  \<^verbatim>\<open>loss.backward()\<close>
  \<^verbatim>\<open>optimizer.step()\<close>
  \<^verbatim>\<open>training_loss += loss.item()\<close>
\<close>

definition train_step ::
  "('b::plus, 'h::{plus,zero}, 'u, 's, 'img) net \<Rightarrow> ('b, 'h, 'u, 's) notebook \<Rightarrow> 'img batch
     \<Rightarrow> ('b, 'h, 'u, 's) notebook \<times> py_error option" where
  "train_step nt st dt =
     (let inputs = batch_im dt; lbls = batch_labels dt; u0 = buffers st in
      case model_call nt st inputs of
        (outputs, st1) \<Rightarrow>
          let st2 = zero_grad st1;
              loss = criterion nt outputs lbls;
              st3 = loss_backward nt u0 inputs lbls st2;
              st4 = optimizer_step nt st3
          in (st4\<lparr>training_loss := training_loss st4 + loss\<rparr>, None))"

text \<open>
  The body of the loop over the validation batches:
  \<^verbatim>\<open>outputs = model(inputs)\<close>
  \<^verbatim>\<open>val_loss = criterion(outputs, labels)\<close>
  \<^verbatim>\<open>_, index = torch.max(outputs, 1)\<close>
  \<^verbatim>\<open>total += labels.size(0)\<close>
  \<^verbatim>\<open>correct_preds += (index == labels).sum().item()\<close>
  \<^verbatim>\<open>validation += val_loss.item()\<close>
\<close>

definition valid_step ::
  "('b, 'h, 'u, 's, 'img) net \<Rightarrow> ('b, 'h, 'u, 's) notebook \<Rightarrow> 'img batch
     \<Rightarrow> ('b, 'h, 'u, 's) notebook \<times> py_error option" where
  "valid_step nt st dt =
     (let inputs = batch_im dt; lbls = batch_labels dt in
      case model_call nt st inputs of
        (outputs, st1) \<Rightarrow>
          let val_loss = criterion nt outputs lbls;
              st2 = st1\<lparr>total := total st1 + length lbls\<rparr>;
              st3 = st2\<lparr>correct_preds := correct_preds st2 + count_correct outputs lbls\<rparr>
          in (st3\<lparr>validation := validation st3 + val_loss\<rparr>, None))"

text \<open>
  One round of \<^verbatim>\<open>for epoch in range(num_epochs)\<close>. \<open>train_batches\<close> and \<open>valid_batches\<close> are
  what \<^verbatim>\<open>data_loaders['train']\<close> and \<^verbatim>\<open>data_loaders['valid']\<close> yield in this round;
  \<open>dataset_size_train\<close> and \<open>dataset_size_valid\<close> are \<^verbatim>\<open>len(train_dataset)\<close> and
  \<^verbatim>\<open>len(valid_dataset)\<close>. A division by zero raises ZeroDivisionError. The round starts
  (\<open>epoch_init\<close>) with \<^verbatim>\<open>model.train()\<close>, the line with the number of the round, and the
  variables set to 0.
  (The variables \<^verbatim>\<open>val_loss\<close> and \<^verbatim>\<open>best_acc\<close>, which are set and never read, are left out.)
\<close>

definition epoch_init :: "('b, 'h, 'u, 's) notebook \<Rightarrow> nat \<Rightarrow> ('b, 'h, 'u, 's) notebook" where
  "epoch_init st epoch =
     (print_line (EpochNumber (epoch + 1)) (st\<lparr>training := True\<rparr>))
       \<lparr>training_loss := 0, val_acc := 0, correct_preds := 0, validation := 0, total := 0\<rparr>"

definition run_epoch ::
  "('b::plus, 'h::{plus,zero}, 'u, 's, 'img) net \<Rightarrow> nat \<Rightarrow> nat
     \<Rightarrow> (py_error + 'img batch) list \<Rightarrow> (py_error + 'img batch) list
     \<Rightarrow> ('b, 'h, 'u, 's) notebook \<Rightarrow> nat \<Rightarrow> ('b, 'h, 'u, 's) notebook \<times> py_error option" where
  "run_epoch nt dataset_size_train dataset_size_valid train_batches valid_batches st epoch =
     (case for_each (train_step nt) (epoch_init st epoch) train_batches of
        (st3, Some e) \<Rightarrow> (st3, Some e)
      | (st3, None) \<Rightarrow>
          if dataset_size_train = 0 then (st3, Some ZeroDivisionError)
          else
            let epoch_loss = training_loss st3 / real dataset_size_train;
                st4 = print_line (TrainingLoss epoch_loss) st3;
                st5 = st4\<lparr>training := False\<rparr>
            in case for_each (valid_step nt) st5 valid_batches of
                 (st6, Some e) \<Rightarrow> (st6, Some e)
               | (st6, None) \<Rightarrow>
                   if total st6 = 0 then (st6, Some ZeroDivisionError)
                   else
                     let st7 = st6\<lparr>val_acc :=
                                    100 * (real (correct_preds st6) / real (total st6))\<rparr>
                     in if dataset_size_valid = 0 then (st7, Some ZeroDivisionError)
                        else
                          (print_line (ValidationAccuracy (val_acc st7))
                             (print_line
                                (ValidationLoss (validation st7 / real dataset_size_valid))
                                st7),
                           None))"

text \<open>The whole cell. A pass over a loader that shuffles differs from round to round, so
  the loaders are given as functions of the round.\<close>

definition training_cell ::
  "('b::plus, 'h::{plus,zero}, 'u, 's, 'img) net \<Rightarrow> nat \<Rightarrow> nat
     \<Rightarrow> (nat \<Rightarrow> (py_error + 'img batch) list) \<Rightarrow> (nat \<Rightarrow> (py_error + 'img batch) list)
     \<Rightarrow> nat \<Rightarrow> ('b, 'h, 'u, 's) notebook \<Rightarrow> ('b, 'h, 'u, 's) notebook \<times> py_error option" where
  "training_cell nt dataset_size_train dataset_size_valid train_pass valid_pass num_epochs st =
     for_each
       (\<lambda>s epoch. run_epoch nt dataset_size_train dataset_size_valid
                     (train_pass epoch) (valid_pass epoch) s epoch)
       st (map Inr [0..<num_epochs])"

text \<open>
  The training cell as the notebook runs it:
  \<^verbatim>\<open>data_loaders = {'train' : train_loader, 'valid': val_loader}\<close>
  \<^verbatim>\<open>dataset_size = {'train' : len(train_dataset), 'valid' : len(valid_dataset)}\<close>

  \<open>shuffled epoch\<close> is the order the training loader draws in the round \<open>epoch\<close>.
\<close>

definition notebook_training ::
  "('b::plus, 'h::{plus,zero}, 'u, 's, 'img) net \<Rightarrow> (string \<Rightarrow> string) \<Rightarrow> (string \<Rightarrow> 'img option)
     \<Rightarrow> 'img FlowerDataset \<Rightarrow> 'img FlowerDataset \<Rightarrow> (nat \<Rightarrow> nat list) \<Rightarrow> nat
     \<Rightarrow> ('b, 'h, 'u, 's) notebook \<Rightarrow> ('b, 'h, 'u, 's) notebook \<times> py_error option" where
  "notebook_training nt unicode_lower image_open train_dataset valid_dataset shuffled num_epochs st =
     training_cell nt (FlowerDataset_len train_dataset) (FlowerDataset_len valid_dataset)
       (\<lambda>epoch. train_loader unicode_lower image_open train_dataset (shuffled epoch))
       (\<lambda>epoch. val_loader unicode_lower image_open valid_dataset)
       num_epochs st"

subsection \<open>The inference cell\<close>

text \<open>\<^verbatim>\<open>cat_to_index = {0 : 'Pink Primrose', 1 : 'Hard-leaved Pocket Orchid',
  2 : 'Canterbury Bells'}\<close>\<close>

definition cat_to_index :: "int \<rightharpoonup> string" where
  "cat_to_index =
     [0 \<mapsto> ''Pink Primrose'', 1 \<mapsto> ''Hard-leaved Pocket Orchid'', 2 \<mapsto> ''Canterbury Bells'']"

text \<open>\<^verbatim>\<open>os.path.basename\<close>: what follows the last slash.\<close>

definition basename :: "string \<Rightarrow> string" where
  "basename p = rev (takeWhile (\<lambda>c. c \<noteq> CHR ''/'') (rev p))"

text \<open>\<^verbatim>\<open>d[k] = v\<close> on a dictionary, which keeps its keys in the order of their first
  insertion: a key that is there keeps its place and gets the new value.\<close>

fun dict_set :: "('k \<times> 'v) list \<Rightarrow> 'k \<Rightarrow> 'v \<Rightarrow> ('k \<times> 'v) list" where
  "dict_set [] k v = [(k, v)]"
| "dict_set ((k', v') # d) k v = (if k' = k then (k, v) # d else (k', v') # dict_set d k v)"

text \<open>
  The body of the loop over the test batches:
  \<^verbatim>\<open>single_im, label = data['im'].to(device), data['labels'].to(device)\<close>
  \<^verbatim>\<open>im_name = data['im_name']\<close>
  \<^verbatim>\<open>pred = model(single_im)\<close>
  \<^verbatim>\<open>_, index = torch.max(pred, 1)\<close>
  \<^verbatim>\<open>total += label.size(0)\<close>
  \<^verbatim>\<open>correct_preds += (index == label).sum().item()\<close>
  \<^verbatim>\<open>pred_list[os.path.basename(im_name[0])] = cat_to_index[index.item()]\<close>

  \<^verbatim>\<open>index.item()\<close> raises ValueError unless the batch has exactly one sample; the right-hand
  side of the assignment is evaluated before the key.
\<close>

definition inference_step ::
  "('b, 'h, 'u, 's, 'img) net \<Rightarrow> ('b, 'h, 'u, 's) notebook \<Rightarrow> 'img batch
     \<Rightarrow> ('b, 'h, 'u, 's) notebook \<times> py_error option" where
  "inference_step nt st dt =
     (let single_im = batch_im dt; label = batch_labels dt in
      case batch_im_name dt of
        None \<Rightarrow> (st, Some KeyError)
      | Some names \<Rightarrow>
          (case model_call nt st single_im of
             (pred, st1) \<Rightarrow>
               let index = map argmax pred;
                   st2 = st1\<lparr>total := total st1 + length label\<rparr>;
                   st3 = st2\<lparr>correct_preds := correct_preds st2 + count_correct pred label\<rparr>
               in (case index of
                     [i] \<Rightarrow>
                       (case cat_to_index (int i) of
                          None \<Rightarrow> (st3, Some KeyError)
                        | Some cn \<Rightarrow>
                            (case names of
                               [] \<Rightarrow> (st3, Some IndexError)
                             | n # _ \<Rightarrow>
                                 (st3\<lparr>pred_list := dict_set (pred_list st3) (basename n) cn\<rparr>,
                                  None)))
                   | _ \<Rightarrow> (st3, Some ValueError))))"

text \<open>
  The cell: \<^verbatim>\<open>model.eval()\<close>, the three variables, the loop, then
  \<^verbatim>\<open>df = pd.DataFrame(pred_list.items(), columns=['file_name', 'class_name'])\<close>,
  \<^verbatim>\<open>df.to_csv(f, index=False)\<close> and the accuracy printed with \<^verbatim>\<open>%d\<close>.
  The file is the header row followed by one row per item of \<^verbatim>\<open>pred_list\<close>.
\<close>

definition inference_cell ::
  "('b, 'h, 'u, 's, 'img) net \<Rightarrow> (py_error + 'img batch) list \<Rightarrow> ('b, 'h, 'u, 's) notebook
     \<Rightarrow> ('b, 'h, 'u, 's) notebook \<times> py_error option" where
  "inference_cell nt test_batches st =
     (let st0 = st\<lparr>training := False\<rparr>;
          st1 = st0\<lparr>total := 0, correct_preds := 0, pred_list := []\<rparr>
      in case for_each (inference_step nt) st1 test_batches of
           (st2, Some e) \<Rightarrow> (st2, Some e)
         | (st2, None) \<Rightarrow>
             let st3 = st2\<lparr>model_predictions :=
                          Some ((''file_name'', ''class_name'') # pred_list st2)\<rparr>
             in if total st3 = 0 then (st3, Some ZeroDivisionError)
                else
                  (print_line
                     (TestAccuracy \<lfloor>100 * (real (correct_preds st3) / real (total st3))\<rfloor>)
                     st3,
                   None))"

subsection \<open>Predicates and fixtures of the theorems\<close>

text \<open>
  The inference theorems are about a test dataset all of whose samples load and get one row
  of scores from the model, the arg-max of which is a key of \<^verbatim>\<open>cat_to_index\<close>; \<open>cls i\<close>
  names the class predicted for the sample at index \<open>i\<close>.
\<close>

definition test_predictions ::
  "('b, 'h, 'u, 's, 'img) net \<Rightarrow> ('b, 'h, 'u, 's) notebook \<Rightarrow> (string \<Rightarrow> string)
     \<Rightarrow> (string \<Rightarrow> 'img option) \<Rightarrow> 'img FlowerDataset \<Rightarrow> (nat \<Rightarrow> string) \<Rightarrow> bool" where
  "test_predictions nt st unicode_lower image_open ds cls =
     (\<forall>i < FlowerDataset_len ds. \<exists>s row.
         FlowerDataset_getitem unicode_lower image_open ds i = Inr s
         \<and> forward_eval nt (backbone st) (head st) (buffers st) [im s] = [row]
         \<and> cat_to_index (int (argmax row)) = Some (cls i))"

text \<open>The assignments the inference loop makes to \<^verbatim>\<open>pred_list\<close>, in order.\<close>

definition predicted_items :: "'img FlowerDataset \<Rightarrow> (nat \<Rightarrow> string) \<Rightarrow> (string \<times> string) list" where
  "predicted_items ds cls =
     map (\<lambda>i. (basename (file_name (data ds ! i)), cls i)) [0..<FlowerDataset_len ds]"

text \<open>The training loop after its first \<open>k\<close> batches, and the loss values
  \<^verbatim>\<open>loss.item()\<close> it meets, batch by batch.\<close>

definition after_batches ::
  "('b::plus, 'h::{plus,zero}, 'u, 's, 'img) net \<Rightarrow> ('b, 'h, 'u, 's) notebook \<Rightarrow> 'img batch list
     \<Rightarrow> nat \<Rightarrow> ('b, 'h, 'u, 's) notebook" where
  "after_batches nt st bs k = fst (for_each (train_step nt) st (map Inr (take k bs)))"

fun train_losses ::
  "('b::plus, 'h::{plus,zero}, 'u, 's, 'img) net \<Rightarrow> ('b, 'h, 'u, 's) notebook \<Rightarrow> 'img batch list
     \<Rightarrow> real list" where
  "train_losses nt st [] = []"
| "train_losses nt st (dt # bs) =
     criterion nt (fst (model_call nt st (batch_im dt))) (batch_labels dt)
       # train_losses nt (fst (train_step nt st dt)) bs"

text \<open>The validation loop: the loss and the scores of a batch, in evaluation mode.\<close>

definition valid_outputs ::
  "('b, 'h, 'u, 's, 'img) net \<Rightarrow> ('b, 'h, 'u, 's) notebook \<Rightarrow> 'img batch \<Rightarrow> real list list" where
  "valid_outputs nt st dt = forward_eval nt (backbone st) (head st) (buffers st) (batch_im dt)"

text \<open>
  A small network on which the theorems are run: an image is its path, the scores depend
  on the first letter of the path only, the loss of a batch is its share of wrong
  predictions, and the optimiser subtracts the gradient. The notebook state before the
  training cell has a stale gradient in the head.
\<close>

definition toy_net :: "(int, int, nat, nat, string) net" where
  "toy_net =
     \<lparr>forward_train =
        (\<lambda>b h u xs. (map (\<lambda>x. if take 1 x = ''b'' then [0, 1, 0] else [1, 0, 0]) xs, u + 1)),
      forward_eval =
        (\<lambda>b h u xs. map (\<lambda>x. if take 1 x = ''b'' then [0, 1, 0] else [1, 0, 0]) xs),
      criterion =
        (\<lambda>outputs lbls. real (length lbls - count_correct outputs lbls) / real (length lbls)),
      gradients = (\<lambda>b h u xs lbls. (1, int (length xs))),
      adam = (\<lambda>s h g. (s + 1, h - g))\<rparr>"

definition notebook0 :: "(int, int, nat, nat) notebook" where
  "notebook0 =
     \<lparr>backbone = 7, backbone_grad = 0, requires_grad = True, required_grad = Some False,
      head = 0, head_grad = 5, buffers = 0, training = False, opt_state = 0, opt_steps = 0,
      training_loss = 0, validation = 0, val_acc = 0, correct_preds = 0, total = 0,
      pred_list = [], model_predictions = None, stdout = []\<rparr>"

definition two_dirs :: "string FlowerDataset" where
  "two_dirs =
     \<lparr>data = [\<lparr>file_name = ''a/x.jpg'', class_name = Num 0, tag = Some ''test''\<rparr>,
              \<lparr>file_name = ''b/x.jpg'', class_name = Num 1, tag = Some ''test''\<rparr>],
      mapping = None, mode = ''test'', transform = None\<rparr>"

definition two_files :: "string FlowerDataset" where
  "two_files =
     \<lparr>data = [\<lparr>file_name = ''a/x.jpg'', class_name = Num 0, tag = Some ''test''\<rparr>,
              \<lparr>file_name = ''b/y.jpg'', class_name = Num 1, tag = Some ''test''\<rparr>],
      mapping = None, mode = ''test'', transform = None\<rparr>"

definition one_file :: "string FlowerDataset" where
  "one_file =
     \<lparr>data = [\<lparr>file_name = ''image_1.jpg'', class_name = Num 0, tag = Some ''test''\<rparr>],
      mapping = None, mode = ''test'', transform = None\<rparr>"

text \<open>A training set of three files and a validation set of two, loaded as the notebook
  loads them but in batches of two; the training loader shuffles, so its order depends on
  the round.\<close>

definition toy_train_set :: "string FlowerDataset" where
  "toy_train_set =
     \<lparr>data = [\<lparr>file_name = ''a/1.jpg'', class_name = Num 0, tag = Some ''train''\<rparr>,
              \<lparr>file_name = ''b/2.jpg'', class_name = Num 1, tag = Some ''train''\<rparr>,
              \<lparr>file_name = ''a/3.jpg'', class_name = Num 1, tag = Some ''train''\<rparr>],
      mapping = None, mode = ''train'', transform = None\<rparr>"

definition toy_valid_set :: "string FlowerDataset" where
  "toy_valid_set =
     \<lparr>data = [\<lparr>file_name = ''a/4.jpg'', class_name = Num 0, tag = Some ''valid''\<rparr>,
              \<lparr>file_name = ''b/5.jpg'', class_name = Num 0, tag = Some ''valid''\<rparr>],
      mapping = None, mode = ''valid'', transform = None\<rparr>"

definition toy_train_loader :: "nat \<Rightarrow> (py_error + string batch) list" where
  "toy_train_loader epoch =
     DataLoader (\<lambda>s. s) (\<lambda>p. Some p) toy_train_set 2 (if epoch = 0 then [0, 2, 1] else [1, 0, 2])"

definition toy_valid_loader :: "nat \<Rightarrow> (py_error + string batch) list" where
  "toy_valid_loader epoch = DataLoader (\<lambda>s. s) (\<lambda>p. Some p) toy_valid_set 1 (sequential toy_valid_set)"

text \<open>A training set of six files for the notebook's own loaders: a pass has a batch of five
  and a batch of one. The order of the first round is shuffled.\<close>

definition toy_six :: "string FlowerDataset" where
  "toy_six =
     \<lparr>data = [\<lparr>file_name = ''a/1.jpg'', class_name = Num 0, tag = Some ''train''\<rparr>,
              \<lparr>file_name = ''a/2.jpg'', class_name = Num 0, tag = Some ''train''\<rparr>,
              \<lparr>file_name = ''a/3.jpg'', class_name = Num 0, tag = Some ''train''\<rparr>,
              \<lparr>file_name = ''a/4.jpg'', class_name = Num 0, tag = Some ''train''\<rparr>,
              \<lparr>file_name = ''a/5.jpg'', class_name = Num 1, tag = Some ''train''\<rparr>,
              \<lparr>file_name = ''b/6.jpg'', class_name = Num 0, tag = Some ''train''\<rparr>],
      mapping = None, mode = ''train'', transform = None\<rparr>"

definition toy_shuffle :: "nat \<Rightarrow> nat list" where
  "toy_shuffle epoch = (if epoch = 0 then [4, 0, 5, 1, 2, 3] else [0, 1, 2, 3, 4, 5])"

section \<open>The dataset index\<close>

lemma build_index_only_mode:
  "build_index annotations tags md = Inr rows \<Longrightarrow> r \<in> set rows \<Longrightarrow> tag r = Some md"
  by (auto simp: build_index_def split: sum.splits)

lemma length_filter_keys:
  assumes "distinct (map fst xs)"
  shows "length (filter (\<lambda>p. P (fst p)) xs) = card {k \<in> fst ` set xs. P k}"
proof -
  have d: "distinct (map fst (filter (\<lambda>p. P (fst p)) xs))"
    using assms by (rule distinct_map_filter)
  have "length (filter (\<lambda>p. P (fst p)) xs) = length (map fst (filter (\<lambda>p. P (fst p)) xs))"
    by simp
  also have "\<dots> = card (set (map fst (filter (\<lambda>p. P (fst p)) xs)))"
    using d by (simp only: distinct_card)
  also have "set (map fst (filter (\<lambda>p. P (fst p)) xs)) = {k \<in> fst ` set xs. P k}"
    by auto
  finally show ?thesis .
qed

lemma zip_rows_count:
  "length xs = length ys \<Longrightarrow>
   length (filter (\<lambda>r. tag r = Some md)
     (map (\<lambda>((f, c), (f', t)). \<lparr>file_name = f, class_name = c, tag = Some t\<rparr>) (zip xs ys)))
   = length (filter (\<lambda>(f, t). t = md) ys)"
  by (induction xs ys rule: list_induct2) auto

lemma join_rows_count:
  assumes da: "distinct (map fst annotations)" and dt: "distinct (map fst tags)"
  shows "length (filter (\<lambda>r. tag r = Some md)
           (map (\<lambda>(f, c). \<lparr>file_name = f, class_name = c, tag = map_of tags f\<rparr>) annotations))
         = length (tagged_with_label annotations tags md)"
proof -
  have l: "length (filter (\<lambda>r. tag r = Some md)
           (map (\<lambda>(f, c). \<lparr>file_name = f, class_name = c, tag = map_of tags f\<rparr>) annotations))
        = length (filter (\<lambda>p. map_of tags (fst p) = Some md) annotations)"
    by (induction annotations) auto
  have r: "tagged_with_label annotations tags md
        = filter (\<lambda>p. map_of tags (fst p) = Some md \<and> fst p \<in> fst ` set annotations) tags"
  proof -
    have "(t = md) = (map_of tags f = Some md)" if "(f, t) \<in> set tags" for f t
      using that dt by (auto simp: map_of_eq_Some_iff dest: eq_key_imp_eq_value)
    then have "(case p of (f, t) \<Rightarrow> t = md \<and> f \<in> fst ` set annotations)
        = (map_of tags (fst p) = Some md \<and> fst p \<in> fst ` set annotations)"
      if "p \<in> set tags" for p
      using that by (cases p) simp
    then show ?thesis
      unfolding tagged_with_label_def by (rule filter_cong [OF refl])
  qed
  have "k \<in> fst ` set tags" if "map_of tags k = Some md" for k
    using map_of_SomeD [OF that] by force
  then have "{k \<in> fst ` set annotations. map_of tags k = Some md}
      = {k \<in> fst ` set tags. map_of tags k = Some md \<and> k \<in> fst ` set annotations}"
    by blast
  then show ?thesis
    unfolding l r
    using length_filter_keys [OF da, of "\<lambda>k. map_of tags k = Some md"]
          length_filter_keys [OF dt, of "\<lambda>k. map_of tags k = Some md \<and> k \<in> fst ` set annotations"]
    by simp
qed

lemma build_index_count:
  assumes ne: "annotations \<noteq> []"
    and da: "distinct (map fst annotations)" and dt: "distinct (map fst tags)"
  shows "\<exists>rows. build_index annotations tags md = Inr rows
           \<and> (\<forall>r \<in> set rows. tag r = Some md)
           \<and> length rows = length (tagged_with_label annotations tags md)"
proof (cases "map fst tags = map fst annotations")
  case True
  then have len: "length annotations = length tags"
    by (metis length_map)
  have all: "tagged_with_label annotations tags md = filter (\<lambda>(f, t). t = md) tags"
  proof -
    have "fst ` set tags = fst ` set annotations"
      using arg_cong [OF True, of set] by simp
    then have "f \<in> fst ` set annotations" if "(f, t) \<in> set tags" for f t
      using that by (metis fst_conv image_eqI)
    then have "(case p of (f, t) \<Rightarrow> t = md \<and> f \<in> fst ` set annotations)
        = (case p of (f, t) \<Rightarrow> t = md)"
      if "p \<in> set tags" for p
      using that by (cases p) simp
    then show ?thesis
      unfolding tagged_with_label_def by (rule filter_cong [OF refl])
  qed
  show ?thesis
    using ne True zip_rows_count [OF len, of md]
    by (auto simp: build_index_def set_tag_column_def all)
next
  case False
  then show ?thesis
    using ne dt join_rows_count [OF da dt, of md]
    by (auto simp: build_index_def set_tag_column_def)
qed

text \<open>
  Claim C1, as amended. For an annotations table with at least one row and tables whose
  file names are unique, \<^verbatim>\<open>FlowerDataset.__init__\<close> builds a dataset for every requested
  mode; every row of its index carries the requested tag, and the index has as many rows
  as the tags table has rows with that tag and a file name of the annotations table.
\<close>

theorem build_index_rows_and_count:
  assumes "annotations \<noteq> []"
    and "distinct (map fst annotations)" and "distinct (map fst tags)"
  shows "\<exists>ds. FlowerDataset_init annotations tags mp md tf = Inr ds
           \<and> (\<forall>r \<in> set (data ds). tag r = Some md)
           \<and> FlowerDataset_len ds = length (tagged_with_label annotations tags md)"
  using build_index_count [OF assms, of md]
  by (auto simp: FlowerDataset_init_def FlowerDataset_len_def)

text \<open>The theorem at a table of four files, one of them without a tag: the train dataset
  has the two rows tagged train.\<close>

theorem build_index_rows_and_count_witness:
  "[(''a.jpg'', Num 0), (''b.jpg'', Num 1), (''c.jpg'', Num 2), (''d.jpg'', Num 0)] \<noteq> []
   \<and> distinct (map fst [(''a.jpg'', Num 0), (''b.jpg'', Num 1), (''c.jpg'', Num 2), (''d.jpg'', Num 0)])
   \<and> distinct (map fst [(''c.jpg'', ''train''), (''a.jpg'', ''test''), (''b.jpg'', ''train'')])
   \<and> (\<exists>ds. FlowerDataset_init
               [(''a.jpg'', Num 0), (''b.jpg'', Num 1), (''c.jpg'', Num 2), (''d.jpg'', Num 0)]
               [(''c.jpg'', ''train''), (''a.jpg'', ''test''), (''b.jpg'', ''train'')]
               None ''train'' (None :: (string \<Rightarrow> py_error + string) option) = Inr ds
             \<and> list_all (\<lambda>r. tag r = Some ''train'') (data ds) \<and> FlowerDataset_len ds = 2)"
proof -
  let ?a = "[(''a.jpg'', Num 0), (''b.jpg'', Num 1), (''c.jpg'', Num 2), (''d.jpg'', Num 0)]"
  let ?t = "[(''c.jpg'', ''train''), (''a.jpg'', ''test''), (''b.jpg'', ''train'')]"
  have h1: "?a \<noteq> []"
    by simp
  have h2: "distinct (map fst ?a)"
    by simp
  have h3: "distinct (map fst ?t)"
    by simp
  have n: "length (tagged_with_label ?a ?t ''train'') = 2"
    by (simp add: tagged_with_label_def)
  show ?thesis
    using h1 h2 h3
      build_index_rows_and_count [OF h1 h2 h3, of None "''train''" "None :: (string \<Rightarrow> py_error + string) option"]
    unfolding n by (simp add: list_all_iff)
qed

text \<open>Claim C1 as stated fails for an annotations file that has its header row only, beside
  a tags file with a row: the frame takes over the rows of the tags table, so the train
  dataset has one row, while no row of the tags table has an entry in the annotations.\<close>

theorem build_index_empty_annotations:
  "FlowerDataset_init [] [(''a.jpg'', ''train'')] None ''train'' (None :: (string \<Rightarrow> py_error + string) option)
     = Inr \<lparr>data = [\<lparr>file_name = ''a.jpg'', class_name = NaN, tag = Some ''train''\<rparr>],
            mapping = None, mode = ''train'', transform = None\<rparr>
   \<and> length (tagged_with_label [] [(''a.jpg'', ''train'')] ''train'') = 0"
  by (simp add: FlowerDataset_init_def build_index_def set_tag_column_def tagged_with_label_def)

lemma set_tag_column_row_cases:
  assumes "set_tag_column annotations tags = Inr joined" and "r \<in> set joined"
    and "file_name r \<notin> fst ` set tags"
  shows "tag r = None"
proof -
  consider (adopt) "annotations = []" "tags \<noteq> []"
    | (same) "\<not> (annotations = [] \<and> tags \<noteq> [])" "map fst tags = map fst annotations"
    | (reindex) "\<not> (annotations = [] \<and> tags \<noteq> [])" "map fst tags \<noteq> map fst annotations"
        "distinct (map fst tags)"
    using assms(1) by (auto simp: set_tag_column_def split: if_splits)
  then show ?thesis
  proof cases
    case adopt
    then have "file_name r \<in> fst ` set tags"
      using assms(1,2) by (force simp: set_tag_column_def)
    then show ?thesis using assms(3) by simp
  next
    case same
    then obtain p q where "(p, q) \<in> set (zip annotations tags)" "file_name r = fst p"
      using assms(1,2) by (auto simp: set_tag_column_def)
    moreover have "fst p = fst q" if "(p, q) \<in> set (zip annotations tags)" for p q
    proof -
      from that obtain i where i: "i < length annotations" "i < length tags"
        "p = annotations ! i" "q = tags ! i"
        by (auto simp: set_zip)
      have "map fst tags ! i = map fst annotations ! i" using same(2) by simp
      then show ?thesis using i by simp
    qed
    ultimately obtain q where "q \<in> set tags" "file_name r = fst q"
      by (metis set_zip_rightD)
    then show ?thesis using assms(3) by (metis image_eqI)
  next
    case reindex
    then obtain f c where "r = \<lparr>file_name = f, class_name = c, tag = map_of tags f\<rparr>"
      using assms(1,2) by (auto simp: set_tag_column_def)
    then show ?thesis using assms(3) by (simp add: map_of_eq_None_iff)
  qed
qed

text \<open>
  Claim C5. A row of the annotations table whose file name the tags table does not have
  stays in the joined frame with an undefined (NaN) tag, and no index built from the two
  tables, whatever the requested mode, has a row with that file name. With unique file
  names in the tags table an index is built for every mode.
\<close>

theorem unmatched_label_row_excluded:
  assumes "(f, c) \<in> set annotations" and "f \<notin> fst ` set tags"
  shows "(\<forall>joined. set_tag_column annotations tags = Inr joined \<longrightarrow>
            (\<exists>r \<in> set joined. file_name r = f) \<and>
            (\<forall>r \<in> set joined. file_name r = f \<longrightarrow> tag r = None))
       \<and> (\<forall>md rows. build_index annotations tags md = Inr rows \<longrightarrow> f \<notin> file_name ` set rows)
       \<and> (distinct (map fst tags) \<longrightarrow>
            (\<forall>md. \<exists>rows. build_index annotations tags md = Inr rows))"
proof (intro conjI allI impI)
  fix joined assume j: "set_tag_column annotations tags = Inr joined"
  have ne: "annotations \<noteq> []" using assms(1) by auto
  have "map fst tags \<noteq> map fst annotations"
  proof
    assume "map fst tags = map fst annotations"
    then have "set (map fst tags) = set (map fst annotations)"
      by (rule arg_cong)
    then have "fst ` set tags = fst ` set annotations"
      by simp
    then show False using assms by force
  qed
  then have "joined = map (\<lambda>(f, c). \<lparr>file_name = f, class_name = c, tag = map_of tags f\<rparr>)
      annotations"
    using j ne by (auto simp: set_tag_column_def split: if_splits)
  then show "\<exists>r \<in> set joined. file_name r = f"
    using assms(1) by force
next
  fix joined assume j: "set_tag_column annotations tags = Inr joined"
  show "\<forall>r \<in> set joined. file_name r = f \<longrightarrow> tag r = None"
    using set_tag_column_row_cases [OF j] assms(2) by blast
next
  fix md rows assume b: "build_index annotations tags md = Inr rows"
  show "f \<notin> file_name ` set rows"
  proof
    assume "f \<in> file_name ` set rows"
    then obtain r where r: "r \<in> set rows" "file_name r = f" by auto
    from b obtain joined where j: "set_tag_column annotations tags = Inr joined"
      and rows: "rows = filter (\<lambda>r. tag r = Some md) joined"
      by (auto simp: build_index_def split: sum.splits)
    from r rows have "r \<in> set joined" "tag r = Some md" by auto
    then show False
      using set_tag_column_row_cases [OF j, of r] r(2) assms(2) by simp
  qed
next
  fix md assume "distinct (map fst tags)"
  then show "\<exists>rows. build_index annotations tags md = Inr rows"
    by (simp add: build_index_def set_tag_column_def)
qed

text \<open>The theorem at the tables above: \<^verbatim>\<open>d.jpg\<close> has no tag and is in
  none of the three indexes.\<close>

theorem unmatched_label_row_excluded_witness:
  "(''d.jpg'', Num 0) \<in> set [(''a.jpg'', Num 0), (''b.jpg'', Num 1), (''c.jpg'', Num 2), (''d.jpg'', Num 0)]
   \<and> ''d.jpg'' \<notin> fst ` set [(''c.jpg'', ''train''), (''a.jpg'', ''test''), (''b.jpg'', ''train'')]
   \<and> (\<exists>rows. build_index [(''a.jpg'', Num 0), (''b.jpg'', Num 1), (''c.jpg'', Num 2), (''d.jpg'', Num 0)]
         [(''c.jpg'', ''train''), (''a.jpg'', ''test''), (''b.jpg'', ''train'')] ''train'' = Inr rows
         \<and> ''d.jpg'' \<notin> file_name ` set rows)
   \<and> (\<exists>rows. build_index [(''a.jpg'', Num 0), (''b.jpg'', Num 1), (''c.jpg'', Num 2), (''d.jpg'', Num 0)]
         [(''c.jpg'', ''train''), (''a.jpg'', ''test''), (''b.jpg'', ''train'')] ''valid'' = Inr rows
         \<and> ''d.jpg'' \<notin> file_name ` set rows)
   \<and> (\<exists>rows. build_index [(''a.jpg'', Num 0), (''b.jpg'', Num 1), (''c.jpg'', Num 2), (''d.jpg'', Num 0)]
         [(''c.jpg'', ''train''), (''a.jpg'', ''test''), (''b.jpg'', ''train'')] ''test'' = Inr rows
         \<and> ''d.jpg'' \<notin> file_name ` set rows)"
proof -
  let ?a = "[(''a.jpg'', Num 0), (''b.jpg'', Num 1), (''c.jpg'', Num 2), (''d.jpg'', Num 0)]"
  let ?t = "[(''c.jpg'', ''train''), (''a.jpg'', ''test''), (''b.jpg'', ''train'')]"
  have h1: "(''d.jpg'', Num 0) \<in> set ?a"
    by simp
  have h2: "''d.jpg'' \<notin> fst ` set ?t"
    by simp
  have h3: "distinct (map fst ?t)"
    by simp
  note th = unmatched_label_row_excluded [OF h1 h2]
  have ex: "\<exists>rows. build_index ?a ?t md = Inr rows" for md
    using th h3 by blast
  have notin: "build_index ?a ?t md = Inr rows \<Longrightarrow> ''d.jpg'' \<notin> file_name ` set rows" for md rows
    using th by blast
  have "\<exists>rows. build_index ?a ?t md = Inr rows \<and> ''d.jpg'' \<notin> file_name ` set rows" for md
    using ex [of md] notin [of md] by blast
  then show ?thesis
    using h1 h2 by blast
qed

section \<open>The sample provider\<close>

lemma lower_Pink_Primrose: "lower unicode_lower ''Pink Primrose'' = ''pink primrose''"
proof -
  have a: "list_all is_ascii ''Pink Primrose''"
    by code_simp
  have m: "map lower_char ''Pink Primrose'' = ''pink primrose''"
    by code_simp
  show ?thesis
    unfolding lower_def using a m by simp
qed

text \<open>
  Claim C2, as amended. For an index in range, a supplied mapping, a row whose class name
  was read as a string and a transform that raises no KeyError of its own on the image of
  the row, \<^verbatim>\<open>__getitem__\<close> raises KeyError exactly when the lower-cased class name is not a
  key of the mapping, and the label it returns is the one the mapping gives to the
  lower-cased class name: every sample it returns has that label, and it returns one when
  the key is there, the label fits a 64-bit tensor, the image file opens and the
  transform, if there is one, does not raise. With the mapping of the scenario and the
  class name \<^verbatim>\<open>Pink Primrose\<close> the label is 0. Lower-casing is \<^verbatim>\<open>str.lower\<close>, also on
  class names that are not ASCII.
\<close>

theorem getitem_mapping_label:
  assumes "idx < FlowerDataset_len ds" and "mapping ds = Some m"
    and "class_name (data ds ! idx) = Str cn"
    and "\<forall>tf img. transform ds = Some tf \<and> image_open (file_name (data ds ! idx)) = Some img
           \<longrightarrow> tf img \<noteq> Inl KeyError"
  shows "((FlowerDataset_getitem unicode_lower image_open ds idx = Inl KeyError)
            = (m (lower unicode_lower cn) = None))
       \<and> (\<forall>s. FlowerDataset_getitem unicode_lower image_open ds idx = Inr s
              \<longrightarrow> m (lower unicode_lower cn) = Some (labels s))
       \<and> (\<forall>v img. m (lower unicode_lower cn) = Some v
              \<and> as_tensor_long v = Inr v
              \<and> image_open (file_name (data ds ! idx)) = Some img
              \<and> (\<forall>tf. transform ds = Some tf \<longrightarrow> (\<exists>img'. tf img = Inr img'))
              \<longrightarrow> (\<exists>s. FlowerDataset_getitem unicode_lower image_open ds idx = Inr s
                     \<and> labels s = v))
       \<and> (m = scenario_mapping \<and> cn = ''Pink Primrose''
              \<longrightarrow> FlowerDataset_getitem unicode_lower image_open ds idx \<noteq> Inl KeyError
                  \<and> (\<forall>s. FlowerDataset_getitem unicode_lower image_open ds idx = Inr s
                         \<longrightarrow> labels s = 0))"
proof -
  have sc: "scenario_mapping ''pink primrose'' = Some 0"
    by (simp add: scenario_mapping_def)
  have n: "\<not> length (data ds) \<le> idx"
    using assms(1) by (simp add: FlowerDataset_len_def)
  have t: "as_tensor_long v \<noteq> Inl KeyError" "as_tensor_long v = Inr w \<Longrightarrow> w = v" for v w
    by (auto simp: as_tensor_long_def split: if_splits)
  show ?thesis
  proof (cases "m (lower unicode_lower cn)")
    case None
    then have "FlowerDataset_getitem unicode_lower image_open ds idx = Inl KeyError"
      using assms(2,3) n by (simp add: FlowerDataset_getitem_def resolve_label_def Let_def)
    then show ?thesis
      using None by (auto simp: lower_Pink_Primrose sc)
  next
    case (Some v)
    have r: "resolve_label unicode_lower (mapping ds) (class_name (data ds ! idx)) = Inr v"
      using Some assms(2,3) by (simp add: resolve_label_def)
    have g: "FlowerDataset_getitem unicode_lower image_open ds idx =
        (case as_tensor_long v of
           Inl e \<Rightarrow> Inl e
         | Inr label_tensor \<Rightarrow>
             (case image_open (file_name (data ds ! idx)) of
                None \<Rightarrow> Inl FileNotFoundError
              | Some img \<Rightarrow>
                  (case (case transform ds of None \<Rightarrow> Inr img | Some tf \<Rightarrow> tf img) of
                     Inl e \<Rightarrow> Inl e
                   | Inr img' \<Rightarrow>
                       if mode ds = ''test''
                       then Inr \<lparr>im = img', labels = label_tensor,
                                 im_name = Some (file_name (data ds ! idx))\<rparr>
                       else Inr \<lparr>im = img', labels = label_tensor, im_name = None\<rparr>)))"
      using n by (simp add: FlowerDataset_getitem_def Let_def r)
    have nk: "FlowerDataset_getitem unicode_lower image_open ds idx \<noteq> Inl KeyError"
      unfolding g using t(1) [of v] assms(4)
      by (auto split: sum.splits option.splits)
    have lab: "labels s = v"
      if "FlowerDataset_getitem unicode_lower image_open ds idx = Inr s" for s
      using that t(2) [of v] unfolding g
      by (auto split: sum.splits option.splits if_splits)
    have ex: "\<exists>s. FlowerDataset_getitem unicode_lower image_open ds idx = Inr s \<and> labels s = v"
      if "as_tensor_long v = Inr v" "image_open (file_name (data ds ! idx)) = Some img"
        "\<forall>tf. transform ds = Some tf \<longrightarrow> (\<exists>img'. tf img = Inr img')" for img
      unfolding g using that
      by (cases "transform ds") (auto split: sum.splits)
    have v0: "v = 0" if "m = scenario_mapping" "cn = ''Pink Primrose''"
      using Some that by (simp add: lower_Pink_Primrose sc)
    show ?thesis
      using Some nk lab ex v0 by auto
  qed
qed

text \<open>The theorem at the scenario: a one-row dataset with the class name
  \<^verbatim>\<open>Pink Primrose\<close> and the scenario's mapping; the sample has the label 0.\<close>

theorem getitem_mapping_label_witness:
  "0 < FlowerDataset_len
         \<lparr>data = [\<lparr>file_name = ''flowers/0/image_1.jpg'', class_name = Str ''Pink Primrose'',
                   tag = Some ''train''\<rparr>],
          mapping = Some scenario_mapping, mode = ''train'',
          transform = Some (\<lambda>x :: string. Inr x :: py_error + string)\<rparr>
   \<and> (\<exists>s. FlowerDataset_getitem (\<lambda>s. s) (\<lambda>p. Some p)
         \<lparr>data = [\<lparr>file_name = ''flowers/0/image_1.jpg'', class_name = Str ''Pink Primrose'',
                   tag = Some ''train''\<rparr>],
          mapping = Some scenario_mapping, mode = ''train'',
          transform = Some (\<lambda>x. Inr x)\<rparr> 0 = Inr s
        \<and> labels s = 0)"
proof -
  let ?ds = "\<lparr>data = [\<lparr>file_name = ''flowers/0/image_1.jpg'', class_name = Str ''Pink Primrose'',
                   tag = Some ''train''\<rparr>],
          mapping = Some scenario_mapping, mode = ''train'',
          transform = Some (\<lambda>x :: string. Inr x :: py_error + string)\<rparr>"
  have h1: "0 < FlowerDataset_len ?ds"
    by (simp add: FlowerDataset_len_def)
  have h2: "mapping ?ds = Some scenario_mapping"
    by simp
  have h3: "class_name (data ?ds ! 0) = Str ''Pink Primrose''"
    by simp
  have h4: "\<forall>tf img. transform ?ds = Some tf
                \<and> (\<lambda>p. Some p) (file_name (data ?ds ! 0)) = Some img
              \<longrightarrow> tf img \<noteq> Inl KeyError"
    by auto
  have sc: "scenario_mapping (lower (\<lambda>s. s) ''Pink Primrose'') = Some 0"
    unfolding lower_Pink_Primrose by (simp add: scenario_mapping_def)
  have at: "as_tensor_long 0 = Inr 0"
    by (simp add: as_tensor_long_def)
  have io: "(\<lambda>p. Some p) (file_name (data ?ds ! 0)) = Some ''flowers/0/image_1.jpg''"
    by simp
  have tr: "\<forall>tf. transform ?ds = Some tf \<longrightarrow> (\<exists>img'. tf ''flowers/0/image_1.jpg'' = Inr img')"
    by auto
  from getitem_mapping_label [of 0 ?ds scenario_mapping "''Pink Primrose''" "\<lambda>p. Some p" "\<lambda>s. s",
      OF h1 h2 h3 h4] sc at io tr
  have "\<exists>s. FlowerDataset_getitem (\<lambda>s. s) (\<lambda>p. Some p) ?ds 0 = Inr s \<and> labels s = 0"
    by blast
  with h1 show ?thesis by blast
qed

text \<open>Claim C2 as stated fails in two ways. On the annotations of the notebook itself, whose
  class names are the numbers 0, 1 and 2, \<^verbatim>\<open>__getitem__\<close> with a mapping raises
  AttributeError, be it with a mapping that has the key \<^verbatim>\<open>0\<close> or with the mapping of the
  scenario, which has not: neither KeyError nor a label. And with a transform that raises
  KeyError, \<^verbatim>\<open>__getitem__\<close> raises KeyError although the lower-cased class name
  \<^verbatim>\<open>pink primrose\<close> is a key of the mapping.\<close>

theorem getitem_numeric_class_name:
  "FlowerDataset_getitem (\<lambda>s. s) (\<lambda>p. Some p)
     \<lparr>data = [\<lparr>file_name = ''flowers/0/image_1.jpg'', class_name = Num 0, tag = Some ''train''\<rparr>],
      mapping = Some [''0'' \<mapsto> 0], mode = ''train'', transform = None\<rparr> 0 = Inl AttributeError
   \<and> FlowerDataset_getitem (\<lambda>s. s) (\<lambda>p. Some p)
     \<lparr>data = [\<lparr>file_name = ''flowers/0/image_1.jpg'', class_name = Num 0, tag = Some ''train''\<rparr>],
      mapping = Some scenario_mapping, mode = ''train'', transform = None\<rparr> 0 = Inl AttributeError
   \<and> FlowerDataset_getitem (\<lambda>s. s) (\<lambda>p. Some p)
     \<lparr>data = [\<lparr>file_name = ''flowers/0/image_1.jpg'', class_name = Str ''Pink Primrose'',
               tag = Some ''train''\<rparr>],
      mapping = Some scenario_mapping, mode = ''train'',
      transform = Some (\<lambda>x. Inl KeyError)\<rparr> 0 = Inl KeyError
   \<and> scenario_mapping (lower (\<lambda>s. s) ''Pink Primrose'') = Some 0"
  by (simp add: FlowerDataset_getitem_def resolve_label_def lower_Pink_Primrose scenario_mapping_def
      as_tensor_long_def)

section \<open>The inference cell\<close>

lemma chunks_one: "chunks (Suc 0) xs = map (\<lambda>x. [x]) xs"
proof (induction xs)
  case Nil
  show ?case by (subst chunks.simps) simp
next
  case (Cons x xs)
  have "chunks (Suc 0) (x # xs) = [x] # chunks (Suc 0) xs"
    by (subst chunks.simps) simp
  then show ?case using Cons by simp
qed

lemma test_loader_batches:
  "test_loader unicode_lower image_open ds =
     map (\<lambda>i. case FlowerDataset_getitem unicode_lower image_open ds i of
                 Inl e \<Rightarrow> Inl e
               | Inr s \<Rightarrow> Inr (collate [s]))
       [0..<FlowerDataset_len ds]"
proof -
  have "(case load_samples g [i] of Inl e \<Rightarrow> Inl e | Inr ss \<Rightarrow> Inr (collate ss))
      = (case g i of Inl e \<Rightarrow> Inl e | Inr s \<Rightarrow> Inr (collate [s]))"
    for g :: "nat \<Rightarrow> py_error + 'a sample" and i
    by (simp split: sum.splits)
  then show ?thesis
    by (simp add: test_loader_def DataLoader_def sequential_def chunks_one comp_def)
qed

lemma concat_chunks: "0 < n \<Longrightarrow> concat (chunks n xs) = xs"
proof (induction n xs rule: chunks.induct)
  case (1 n xs)
  show ?case
  proof (cases "xs = []")
    case True
    then show ?thesis by (subst chunks.simps) simp
  next
    case False
    then show ?thesis
      using 1 by (subst chunks.simps) simp
  qed
qed

lemma load_samples_all:
  assumes "\<forall>i \<in> set idxs. \<exists>s. getitem i = Inr s"
  shows "\<exists>ss. load_samples getitem idxs = Inr ss \<and> length ss = length idxs"
  using assms by (induction idxs) auto

text \<open>When every sample loads, a pass over a loader yields batches only, and they hold as
  many samples as the sampler has indices: \<^verbatim>\<open>len(dataset)\<close>, with or without shuffling.\<close>

lemma DataLoader_all_loaded:
  assumes "0 < batch_size"
    and "\<forall>i \<in> set sampler. \<exists>s. FlowerDataset_getitem unicode_lower image_open ds i = Inr s"
  shows "\<exists>bs. DataLoader unicode_lower image_open ds batch_size sampler = map Inr bs
           \<and> length (concat (map batch_labels bs)) = length sampler"
proof -
  have "\<exists>bs. map (\<lambda>idxs. case load_samples (FlowerDataset_getitem unicode_lower image_open ds) idxs of
                            Inl e \<Rightarrow> Inl e
                          | Inr ss \<Rightarrow> Inr (collate ss :: 'a batch)) gs
               = map Inr bs
           \<and> length (concat (map batch_labels bs)) = length (concat gs)"
    if "\<forall>i \<in> set (concat gs). \<exists>s. FlowerDataset_getitem unicode_lower image_open ds i = Inr s" for gs
    using that
  proof (induction gs)
    case Nil
    show ?case by simp
  next
    case (Cons g gs)
    from Cons.prems have "\<forall>i \<in> set g. \<exists>s. FlowerDataset_getitem unicode_lower image_open ds i = Inr s"
      by simp
    from load_samples_all [OF this] obtain ss where
      ss: "load_samples (FlowerDataset_getitem unicode_lower image_open ds) g = Inr ss" "length ss = length g"
      by blast
    from Cons obtain bs where
      bs: "map (\<lambda>idxs. case load_samples (FlowerDataset_getitem unicode_lower image_open ds) idxs of
                            Inl e \<Rightarrow> Inl e
                          | Inr ss \<Rightarrow> Inr (collate ss :: 'a batch)) gs = map Inr bs"
        "length (concat (map batch_labels bs)) = length (concat gs)"
      by auto
    show ?case
      by (rule exI [of _ "collate ss # bs"]) (simp add: ss bs collate_def)
  qed
  from this [of "chunks batch_size sampler"] show ?thesis
    using assms by (simp add: DataLoader_def concat_chunks)
qed

lemma dict_set_keys: "fst ` set (dict_set d k v) = insert k (fst ` set d)"
  by (induction d k v rule: dict_set.induct) auto

lemma dict_set_distinct: "distinct (map fst d) \<Longrightarrow> distinct (map fst (dict_set d k v))"
  by (induction d k v rule: dict_set.induct) (auto simp: dict_set_keys)

lemma dict_set_map_of: "map_of (dict_set d k v) = (map_of d)(k \<mapsto> v)"
  by (induction d k v rule: dict_set.induct) auto

lemma foldl_dict_set_keys:
  "fst ` set (foldl (\<lambda>d (k, v). dict_set d k v) d kvs) = fst ` set d \<union> fst ` set kvs"
proof (induction kvs arbitrary: d)
  case Nil
  show ?case by simp
next
  case (Cons p kvs)
  obtain k v where p: "p = (k, v)" by (cases p)
  show ?case
    unfolding p using Cons [of "dict_set d k v"]
    by (simp add: dict_set_keys)
qed

lemma foldl_dict_set_distinct:
  "distinct (map fst d) \<Longrightarrow> distinct (map fst (foldl (\<lambda>d (k, v). dict_set d k v) d kvs))"
proof (induction kvs arbitrary: d)
  case Nil
  then show ?case by simp
next
  case (Cons p kvs)
  obtain k v where p: "p = (k, v)" by (cases p)
  show ?case
    unfolding p using Cons.IH [of "dict_set d k v"] dict_set_distinct [OF Cons.prems]
    by simp
qed

lemma foldl_dict_set_map_of:
  "map_of (foldl (\<lambda>d (k, v). dict_set d k v) d kvs) = map_of d ++ map_of (rev kvs)"
proof (induction kvs arbitrary: d)
  case Nil
  show ?case by simp
next
  case (Cons p kvs)
  obtain k v where p: "p = (k, v)" by (cases p)
  have "map_of (foldl (\<lambda>d (k, v). dict_set d k v) (dict_set d k v) kvs)
      = (map_of d)(k \<mapsto> v) ++ map_of (rev kvs)"
    using Cons [of "dict_set d k v"] unfolding dict_set_map_of .
  also have "\<dots> = map_of d ++ (map_of (rev kvs @ [(k, v)]))"
    by (rule ext) (simp add: map_add_def split: option.splits)
  finally show ?case unfolding p by simp
qed

lemma inference_step_single:
  assumes "\<not> training st" and "batch_im_name dt = Some [n]" and "batch_im dt = [x]"
    and "forward_eval nt (backbone st) (head st) (buffers st) [x] = [row]"
    and "cat_to_index (int (argmax row)) = Some cn"
  shows "inference_step nt st dt =
           (st\<lparr>total := total st + length (batch_labels dt),
               correct_preds := correct_preds st + count_correct [row] (batch_labels dt),
               pred_list := dict_set (pred_list st) (basename n) cn\<rparr>, None)"
  using assms by (simp add: inference_step_def model_call_def Let_def)

lemma inference_loop_pred_list:
  assumes "\<not> training st"
    and "\<forall>i \<in> set idxs. \<exists>s row. g i = Inr s \<and> im_name s = Some (nm i)
           \<and> forward_eval nt (backbone st) (head st) (buffers st) [im s] = [row]
           \<and> cat_to_index (int (argmax row)) = Some (cls i)"
  shows "\<exists>st'. for_each (inference_step nt) st
             (map (\<lambda>i. case g i of Inl e \<Rightarrow> Inl e | Inr s \<Rightarrow> Inr (collate [s])) idxs) = (st', None)
           \<and> pred_list st' = foldl (\<lambda>d (k, v). dict_set d k v) (pred_list st)
                               (map (\<lambda>i. (basename (nm i), cls i)) idxs)
           \<and> total st' = total st + length idxs
           \<and> backbone st' = backbone st \<and> head st' = head st \<and> buffers st' = buffers st
           \<and> training st' = training st \<and> model_predictions st' = model_predictions st
           \<and> stdout st' = stdout st"
  using assms
proof (induction idxs arbitrary: st)
  case Nil
  then show ?case by simp
next
  case (Cons i idxs)
  from Cons.prems(2) obtain s row where s: "g i = Inr s" "im_name s = Some (nm i)"
    and fw: "forward_eval nt (backbone st) (head st) (buffers st) [im s] = [row]"
    and ct: "cat_to_index (int (argmax row)) = Some (cls i)"
    by auto
  define st1 where "st1 = st\<lparr>total := total st + length (batch_labels (collate [s])),
               correct_preds := correct_preds st + count_correct [row] (batch_labels (collate [s])),
               pred_list := dict_set (pred_list st) (basename (nm i)) (cls i)\<rparr>"
  have step: "inference_step nt st (collate [s]) = (st1, None)"
    unfolding st1_def
    by (rule inference_step_single [OF Cons.prems(1) _ _ fw ct]) (simp_all add: collate_def s)
  have keep: "backbone st1 = backbone st" "head st1 = head st" "buffers st1 = buffers st"
    "training st1 = training st" "model_predictions st1 = model_predictions st"
    "stdout st1 = stdout st" "total st1 = total st + 1"
    "pred_list st1 = dict_set (pred_list st) (basename (nm i)) (cls i)"
    by (simp_all add: st1_def collate_def)
  have "\<forall>i \<in> set idxs. \<exists>s row. g i = Inr s \<and> im_name s = Some (nm i)
           \<and> forward_eval nt (backbone st1) (head st1) (buffers st1) [im s] = [row]
           \<and> cat_to_index (int (argmax row)) = Some (cls i)"
    using Cons.prems(2) by (simp add: keep)
  moreover have "\<not> training st1" using Cons.prems(1) by (simp add: keep)
  ultimately obtain st' where
    "for_each (inference_step nt) st1
       (map (\<lambda>i. case g i of Inl e \<Rightarrow> Inl e | Inr s \<Rightarrow> Inr (collate [s])) idxs) = (st', None)"
    "pred_list st' = foldl (\<lambda>d (k, v). dict_set d k v) (pred_list st1)
                               (map (\<lambda>i. (basename (nm i), cls i)) idxs)"
    "total st' = total st1 + length idxs"
    "backbone st' = backbone st1" "head st' = head st1" "buffers st' = buffers st1"
    "training st' = training st1" "model_predictions st' = model_predictions st1"
    "stdout st' = stdout st1"
    using Cons.IH [of st1] by blast
  then show ?case
    by (simp add: s step keep)
qed

lemma getitem_test_im_name:
  "mode ds = ''test'' \<Longrightarrow> FlowerDataset_getitem unicode_lower image_open ds i = Inr s
     \<Longrightarrow> im_name s = Some (file_name (data ds ! i))"
  by (auto simp: FlowerDataset_getitem_def Let_def split: if_splits sum.splits option.splits)

lemma inference_cell_result:
  assumes md: "mode ds = ''test''" and tp: "test_predictions nt st unicode_lower image_open ds cls"
  shows "\<exists>st'. inference_cell nt (test_loader unicode_lower image_open ds) st
                 = (st', if FlowerDataset_len ds = 0 then Some ZeroDivisionError else None)
           \<and> pred_list st' = foldl (\<lambda>d (k, v). dict_set d k v) [] (predicted_items ds cls)
           \<and> model_predictions st' = Some ((''file_name'', ''class_name'') # pred_list st')
           \<and> backbone st' = backbone st \<and> head st' = head st \<and> buffers st' = buffers st"
proof -
  define st1 where "st1 = st\<lparr>training := False, total := 0, correct_preds := 0, pred_list := []\<rparr>"
  have nt: "\<not> training st1" by (simp add: st1_def)
  have "\<forall>i \<in> set [0..<FlowerDataset_len ds]. \<exists>s row.
           FlowerDataset_getitem unicode_lower image_open ds i = Inr s
           \<and> im_name s = Some (file_name (data ds ! i))
           \<and> forward_eval nt (backbone st1) (head st1) (buffers st1) [im s] = [row]
           \<and> cat_to_index (int (argmax row)) = Some (cls i)"
    using tp getitem_test_im_name [OF md]
    unfolding test_predictions_def st1_def by fastforce
  from inference_loop_pred_list [OF nt this]
  obtain st2 where lp: "for_each (inference_step nt) st1 (test_loader unicode_lower image_open ds) = (st2, None)"
    and pl: "pred_list st2 = foldl (\<lambda>d (k, v). dict_set d k v) []
               (map (\<lambda>i. (basename (file_name (data ds ! i)), cls i)) [0..<FlowerDataset_len ds])"
    and tt: "total st2 = FlowerDataset_len ds"
    and keep: "backbone st2 = backbone st" "head st2 = head st" "buffers st2 = buffers st"
    unfolding test_loader_batches by (auto simp: st1_def)
  show ?thesis
    using lp pl keep tt
    by (simp add: inference_cell_def Let_def st1_def [symmetric] predicted_items_def print_line_def)
qed

lemma predicted_items_keys:
  "fst ` set (predicted_items ds cls) = basename ` file_name ` set (data ds)"
proof -
  have "map fst (predicted_items ds cls) = map (basename \<circ> file_name) (data ds)"
    unfolding predicted_items_def FlowerDataset_len_def
    by (rule nth_equalityI) simp_all
  then have "set (map fst (predicted_items ds cls)) = set (map (basename \<circ> file_name) (data ds))"
    by simp
  then show ?thesis by (simp add: image_comp)
qed

lemma map_of_rev_last:
  assumes "j < n" and "\<forall>k. j < k \<and> k < n \<longrightarrow> key k \<noteq> key j"
  shows "map_of (rev (map (\<lambda>i. (key i, val i)) [0..<n])) (key j) = Some (val j)"
proof -
  have split: "[0..<n] = [0..<j] @ j # [Suc j..<n]"
    using assms(1)
    by (metis le_add1 less_imp_add_positive plus_nat.add_0 upt_add_eq_append upt_conv_Cons)
  have "key k \<noteq> key j" if "k \<in> set [Suc j..<n]" for k
    using assms(2) that by simp
  then have "key j \<notin> fst ` set (rev (map (\<lambda>i. (key i, val i)) [Suc j..<n]))"
    by force
  then have none: "map_of (rev (map (\<lambda>i. (key i, val i)) [Suc j..<n])) (key j) = None"
    by (simp add: map_of_eq_None_iff)
  show ?thesis
    unfolding split by (simp add: map_add_def none)
qed

text \<open>
  Claim C4, as amended. For a test dataset all of whose samples load and are classified, the
  inference cell writes a predictions file whose data rows have pairwise different keys,
  the keys being the basenames of the file names of the test index: it has as many data
  rows as the file names have different basenames. When no two file names of the test
  index share a basename, that is one row per distinct file name.
\<close>

theorem inference_csv_rows:
  assumes "mode ds = ''test''" and "test_predictions nt st unicode_lower image_open ds cls"
  shows "\<exists>st' err rows. inference_cell nt (test_loader unicode_lower image_open ds) st = (st', err)
     \<and> model_predictions st' = Some ((''file_name'', ''class_name'') # rows)
     \<and> distinct (map fst rows)
     \<and> fst ` set rows = basename ` file_name ` set (data ds)
     \<and> length rows = card (basename ` file_name ` set (data ds))
     \<and> (inj_on basename (file_name ` set (data ds))
          \<longrightarrow> length rows = card (file_name ` set (data ds)))"
proof -
  from inference_cell_result [OF assms] obtain st' where
    r: "inference_cell nt (test_loader unicode_lower image_open ds) st
          = (st', if FlowerDataset_len ds = 0 then Some ZeroDivisionError else None)"
    and pl: "pred_list st' = foldl (\<lambda>d (k, v). dict_set d k v) [] (predicted_items ds cls)"
    and mp: "model_predictions st' = Some ((''file_name'', ''class_name'') # pred_list st')"
    by blast
  have d: "distinct (map fst (pred_list st'))"
    unfolding pl by (rule foldl_dict_set_distinct) simp
  have k: "fst ` set (pred_list st') = basename ` file_name ` set (data ds)"
    unfolding pl by (simp add: foldl_dict_set_keys predicted_items_keys)
  have "length (pred_list st') = length (map fst (pred_list st'))"
    by simp
  also have "\<dots> = card (set (map fst (pred_list st')))"
    using d by (simp only: distinct_card)
  finally have l: "length (pred_list st') = card (basename ` file_name ` set (data ds))"
    using k by simp
  have "inj_on basename (file_name ` set (data ds))
          \<longrightarrow> length (pred_list st') = card (file_name ` set (data ds))"
    using l by (simp add: card_image)
  with r mp d k l show ?thesis by blast
qed

text \<open>The theorem at a test index of two files with different basenames: two data rows.\<close>

theorem inference_csv_rows_witness:
  "mode two_files = ''test''
   \<and> test_predictions toy_net notebook0 (\<lambda>s. s) (\<lambda>p. Some p) two_files
        (\<lambda>i. if i = 0 then ''Pink Primrose'' else ''Hard-leaved Pocket Orchid'')
   \<and> (\<exists>st' err rows. inference_cell toy_net (test_loader (\<lambda>s. s) (\<lambda>p. Some p) two_files) notebook0 = (st', err)
        \<and> model_predictions st' = Some ((''file_name'', ''class_name'') # rows)
        \<and> distinct (map fst rows) \<and> length rows = 2)"
proof -
  let ?cls = "\<lambda>i::nat. if i = 0 then ''Pink Primrose'' else ''Hard-leaved Pocket Orchid''"
  have h1: "mode two_files = ''test''"
    by (simp add: two_files_def)
  have g0: "FlowerDataset_getitem (\<lambda>s. s) (\<lambda>p. Some p) two_files 0
      = Inr \<lparr>im = ''a/x.jpg'', labels = 0, im_name = Some ''a/x.jpg''\<rparr>"
    by code_simp
  have g1: "FlowerDataset_getitem (\<lambda>s. s) (\<lambda>p. Some p) two_files 1
      = Inr \<lparr>im = ''b/y.jpg'', labels = 1, im_name = Some ''b/y.jpg''\<rparr>"
    by code_simp
  have len: "FlowerDataset_len two_files = 2"
    by (simp add: FlowerDataset_len_def two_files_def)
  have i01: "i = 0 \<or> i = 1" if "i < 2" for i :: nat
    using that by auto
  have h2: "test_predictions toy_net notebook0 (\<lambda>s. s) (\<lambda>p. Some p) two_files ?cls"
    unfolding test_predictions_def len
    using g0 g1
    by (auto dest!: i01 simp: toy_net_def notebook0_def argmax_def cat_to_index_def)
  have inj: "inj_on basename (file_name ` set (data two_files))"
    by (simp add: two_files_def basename_def)
  have c: "card (file_name ` set (data two_files)) = 2"
    by (simp add: two_files_def)
  from inference_csv_rows [OF h1 h2] inj c
  have "\<exists>st' err rows. inference_cell toy_net (test_loader (\<lambda>s. s) (\<lambda>p. Some p) two_files) notebook0 = (st', err)
        \<and> model_predictions st' = Some ((''file_name'', ''class_name'') # rows)
        \<and> distinct (map fst rows) \<and> length rows = 2"
    by metis
  with h1 h2 show ?thesis by blast
qed

text \<open>Claim C4 as stated fails for a test index of two distinct file names that share the
  basename, \<^verbatim>\<open>a/x.jpg\<close> and \<^verbatim>\<open>b/x.jpg\<close>: the predictions file has one data row, and neither
  file name is in it.\<close>

theorem inference_csv_rows_shared_basename:
  "map file_name (data two_dirs) = [''a/x.jpg'', ''b/x.jpg'']
   \<and> model_predictions (fst (inference_cell toy_net (test_loader (\<lambda>s. s) (\<lambda>p. Some p) two_dirs) notebook0))
       = Some [(''file_name'', ''class_name''), (''x.jpg'', ''Hard-leaved Pocket Orchid'')]"
  by code_simp

text \<open>
  Claim C10. The inference cell keys every prediction by the basename of the sample's file
  name: the file_name column of the predictions file holds exactly the basenames of the
  test index, each once, and the row of a basename holds the prediction for the last test
  file with that basename, so that of an earlier file with the same basename is
  overwritten. No error is raised for it: the cell fails only on an empty test index,
  with ZeroDivisionError, after the file is written.
\<close>

theorem inference_keyed_by_basename:
  assumes "mode ds = ''test''" and "test_predictions nt st unicode_lower image_open ds cls"
  shows "\<exists>st' rows. inference_cell nt (test_loader unicode_lower image_open ds) st
                 = (st', if FlowerDataset_len ds = 0 then Some ZeroDivisionError else None)
     \<and> model_predictions st' = Some ((''file_name'', ''class_name'') # rows)
     \<and> fst ` set rows = basename ` file_name ` set (data ds)
     \<and> distinct (map fst rows)
     \<and> (\<forall>i j. i \<le> j \<and> j < FlowerDataset_len ds
            \<and> basename (file_name (data ds ! i)) = basename (file_name (data ds ! j))
            \<and> (\<forall>k. j < k \<and> k < FlowerDataset_len ds
                  \<longrightarrow> basename (file_name (data ds ! k)) \<noteq> basename (file_name (data ds ! j)))
          \<longrightarrow> map_of rows (basename (file_name (data ds ! i))) = Some (cls j))"
proof -
  from inference_cell_result [OF assms] obtain st' where
    r: "inference_cell nt (test_loader unicode_lower image_open ds) st
          = (st', if FlowerDataset_len ds = 0 then Some ZeroDivisionError else None)"
    and pl: "pred_list st' = foldl (\<lambda>d (k, v). dict_set d k v) [] (predicted_items ds cls)"
    and mp: "model_predictions st' = Some ((''file_name'', ''class_name'') # pred_list st')"
    by blast
  have d: "distinct (map fst (pred_list st'))"
    unfolding pl by (rule foldl_dict_set_distinct) simp
  have k: "fst ` set (pred_list st') = basename ` file_name ` set (data ds)"
    unfolding pl by (simp add: foldl_dict_set_keys predicted_items_keys)
  have m: "map_of (pred_list st') (basename (file_name (data ds ! i))) = Some (cls j)"
    if "i \<le> j" "j < FlowerDataset_len ds"
      "basename (file_name (data ds ! i)) = basename (file_name (data ds ! j))"
      "\<forall>k. j < k \<and> k < FlowerDataset_len ds
            \<longrightarrow> basename (file_name (data ds ! k)) \<noteq> basename (file_name (data ds ! j))"
    for i j
    unfolding pl foldl_dict_set_map_of predicted_items_def that(3)
    using map_of_rev_last [OF that(2,4)] by simp
  from r mp k d m show ?thesis by blast
qed

text \<open>The theorem at \<^verbatim>\<open>a/x.jpg\<close> and \<^verbatim>\<open>b/x.jpg\<close>: one row, keyed \<^verbatim>\<open>x.jpg\<close>, with the
  prediction for the second file.\<close>

theorem inference_keyed_by_basename_witness:
  "mode two_dirs = ''test''
   \<and> test_predictions toy_net notebook0 (\<lambda>s. s) (\<lambda>p. Some p) two_dirs
        (\<lambda>i. if i = 0 then ''Pink Primrose'' else ''Hard-leaved Pocket Orchid'')
   \<and> (\<exists>st' rows. inference_cell toy_net (test_loader (\<lambda>s. s) (\<lambda>p. Some p) two_dirs) notebook0 = (st', None)
        \<and> model_predictions st' = Some ((''file_name'', ''class_name'') # rows)
        \<and> fst ` set rows = {''x.jpg''}
        \<and> map_of rows ''x.jpg'' = Some ''Hard-leaved Pocket Orchid'')"
proof -
  let ?cls = "\<lambda>i::nat. if i = 0 then ''Pink Primrose'' else ''Hard-leaved Pocket Orchid''"
  have h1: "mode two_dirs = ''test''"
    by (simp add: two_dirs_def)
  have g0: "FlowerDataset_getitem (\<lambda>s. s) (\<lambda>p. Some p) two_dirs 0
      = Inr \<lparr>im = ''a/x.jpg'', labels = 0, im_name = Some ''a/x.jpg''\<rparr>"
    by code_simp
  have g1: "FlowerDataset_getitem (\<lambda>s. s) (\<lambda>p. Some p) two_dirs 1
      = Inr \<lparr>im = ''b/x.jpg'', labels = 1, im_name = Some ''b/x.jpg''\<rparr>"
    by code_simp
  have len: "FlowerDataset_len two_dirs = 2"
    by (simp add: FlowerDataset_len_def two_dirs_def)
  have i01: "i = 0 \<or> i = 1" if "i < 2" for i :: nat
    using that by auto
  have h2: "test_predictions toy_net notebook0 (\<lambda>s. s) (\<lambda>p. Some p) two_dirs ?cls"
    unfolding test_predictions_def len
    using g0 g1
    by (auto dest!: i01 simp: toy_net_def notebook0_def argmax_def cat_to_index_def)
  have b0: "basename (file_name (data two_dirs ! 0)) = ''x.jpg''"
    by (simp add: two_dirs_def basename_def)
  have b1: "basename (file_name (data two_dirs ! 1)) = ''x.jpg''"
    by (simp add: two_dirs_def basename_def)
  have bs: "basename ` file_name ` set (data two_dirs) = {''x.jpg''}"
    by (simp add: two_dirs_def basename_def)
  from inference_keyed_by_basename [OF h1 h2] obtain st' rows where
    r: "inference_cell toy_net (test_loader (\<lambda>s. s) (\<lambda>p. Some p) two_dirs) notebook0 = (st', None)"
    and mp: "model_predictions st' = Some ((''file_name'', ''class_name'') # rows)"
    and ks: "fst ` set rows = {''x.jpg''}"
    and lw: "\<And>i j. i \<le> j \<and> j < 2
            \<and> basename (file_name (data two_dirs ! i)) = basename (file_name (data two_dirs ! j))
            \<and> (\<forall>k. j < k \<and> k < 2
                  \<longrightarrow> basename (file_name (data two_dirs ! k)) \<noteq> basename (file_name (data two_dirs ! j)))
          \<Longrightarrow> map_of rows (basename (file_name (data two_dirs ! i))) = Some (?cls j)"
    unfolding len bs by auto
  have "\<forall>k::nat. 1 < k \<and> k < 2 \<longrightarrow> basename (file_name (data two_dirs ! k)) \<noteq> ''x.jpg''"
    by auto
  then have "map_of rows ''x.jpg'' = Some ''Hard-leaved Pocket Orchid''"
    using lw [of 0 1] unfolding b0 b1 by simp
  with h1 h2 r mp ks show ?thesis by blast
qed

text \<open>
  Claim C9, as amended. For a sample of a test dataset for which the model gives one row of
  scores, the body of the inference loop looks the arg-max class id up in the fixed table
  \<^verbatim>\<open>cat_to_index\<close>, whether or not the dataset was given a mapping: it records the name
  under the basename of the sample's file name, and raises KeyError, recording nothing,
  when the id is not a key of the table.
\<close>

theorem inference_records_cat_to_index:
  assumes "mode ds = ''test''" and "FlowerDataset_getitem unicode_lower image_open ds i = Inr s"
    and "\<not> training st"
    and "forward_eval nt (backbone st) (head st) (buffers st) [im s] = [row]"
  shows "\<exists>st'. pred_list st' =
             (case cat_to_index (int (argmax row)) of
                None \<Rightarrow> pred_list st
              | Some cn \<Rightarrow> dict_set (pred_list st) (basename (file_name (data ds ! i))) cn)
         \<and> inference_step nt st (collate [s])
             = (st', case cat_to_index (int (argmax row)) of None \<Rightarrow> Some KeyError | Some cn \<Rightarrow> None)"
  using assms getitem_test_im_name [OF assms(1,2)]
  by (cases "cat_to_index (int (argmax row))")
     (simp_all add: inference_step_def model_call_def Let_def collate_def)

text \<open>The theorem at the one-file dataset, built without a mapping.\<close>

theorem inference_records_cat_to_index_witness:
  "mode one_file = ''test''
   \<and> FlowerDataset_getitem (\<lambda>s. s) (\<lambda>p. Some p) one_file 0
       = Inr \<lparr>im = ''image_1.jpg'', labels = 0, im_name = Some ''image_1.jpg''\<rparr>
   \<and> \<not> training notebook0
   \<and> (\<exists>st'. pred_list st' = [(''image_1.jpg'', ''Pink Primrose'')]
        \<and> inference_step toy_net notebook0
             (collate [\<lparr>im = ''image_1.jpg'', labels = 0, im_name = Some ''image_1.jpg''\<rparr>])
           = (st', None))"
proof -
  have h1: "mode one_file = ''test''"
    by (simp add: one_file_def)
  have h2: "FlowerDataset_getitem (\<lambda>s. s) (\<lambda>p. Some p) one_file 0
       = Inr \<lparr>im = ''image_1.jpg'', labels = 0, im_name = Some ''image_1.jpg''\<rparr>"
    by code_simp
  have h3: "\<not> training notebook0"
    by (simp add: notebook0_def)
  have h4: "forward_eval toy_net (backbone notebook0) (head notebook0) (buffers notebook0)
      [im \<lparr>im = ''image_1.jpg'', labels = 0, im_name = Some ''image_1.jpg''\<rparr>] = [[1, 0, 0]]"
    by (simp add: toy_net_def)
  have c: "cat_to_index (int (argmax [1, 0, 0])) = Some ''Pink Primrose''"
    by (simp add: argmax_def cat_to_index_def)
  have b: "basename (file_name (data one_file ! 0)) = ''image_1.jpg''"
    by (simp add: one_file_def basename_def)
  have p: "pred_list notebook0 = []"
    by (simp add: notebook0_def)
  from inference_records_cat_to_index [OF h1 h2 h3 h4]
  have "\<exists>st'. pred_list st' = [(''image_1.jpg'', ''Pink Primrose'')]
        \<and> inference_step toy_net notebook0
             (collate [\<lparr>im = ''image_1.jpg'', labels = 0, im_name = Some ''image_1.jpg''\<rparr>])
           = (st', None)"
    unfolding c b p by simp
  with h1 h2 h3 show ?thesis by blast
qed

text \<open>Claim C9 as stated fails where no mapping was supplied, as in the notebook: the test
  file \<^verbatim>\<open>image_1.jpg\<close> of class 0 is recorded with the class name \<^verbatim>\<open>Pink Primrose\<close>, not
  with the id.\<close>

theorem inference_without_mapping_records_name:
  "mapping one_file = None
   \<and> model_predictions (fst (inference_cell toy_net (test_loader (\<lambda>s. s) (\<lambda>p. Some p) one_file) notebook0))
       = Some [(''file_name'', ''class_name''), (''image_1.jpg'', ''Pink Primrose'')]"
  by code_simp

section \<open>The training cell\<close>

lemma for_each_append:
  "for_each body st (xs @ ys) =
     (case for_each body st xs of (st', None) \<Rightarrow> for_each body st' ys | (st', Some e) \<Rightarrow> (st', Some e))"
proof (induction xs arbitrary: st)
  case Nil
  show ?case by simp
next
  case (Cons x xs)
  show ?case
  proof (cases x)
    case (Inl e)
    then show ?thesis by simp
  next
    case (Inr b)
    then show ?thesis
      using Cons by (simp split: prod.splits option.splits)
  qed
qed

lemma for_each_invariant:
  assumes step: "\<And>s x. P s \<Longrightarrow> P (fst (body s x))" and "P st"
  shows "P (fst (for_each body st xs))"
  using assms(2)
proof (induction xs arbitrary: st)
  case Nil
  then show ?case by simp
next
  case (Cons x xs)
  show ?case
  proof (cases x)
    case (Inl e)
    then show ?thesis using Cons.prems by simp
  next
    case (Inr b)
    have "P (fst (body st b))" using Cons.prems by (rule step)
    then show ?thesis
      using Inr Cons.IH [of "fst (body st b)"]
      by (cases "body st b") (auto split: option.splits)
  qed
qed

lemma train_step_no_error: "snd (train_step nt st dt) = None"
  by (simp add: train_step_def Let_def split: prod.splits)

lemma valid_step_no_error: "snd (valid_step nt st dt) = None"
  by (simp add: valid_step_def Let_def split: prod.splits)

lemma for_each_total:
  assumes "\<And>s x. snd (body s x) = None"
  shows "snd (for_each body st (map Inr bs)) = None"
proof (induction bs arbitrary: st)
  case Nil
  show ?case by simp
next
  case (Cons b bs)
  show ?case
    using assms [of st b] Cons [of "fst (body st b)"]
    by (cases "body st b") simp
qed

lemma for_each_Inr_Cons:
  assumes "snd (body st b) = None"
  shows "for_each body st (Inr b # rest) = for_each body (fst (body st b)) rest"
  using assms by (cases "body st b") simp

lemma train_step_fields:
  fixes nt :: "('b::plus, 'h::monoid_add, 'u, 's, 'img) net"
  shows "backbone (fst (train_step nt st dt)) = backbone st"
    and "buffers (fst (train_step nt st dt)) = buffers (snd (model_call nt st (batch_im dt)))"
    and "head_grad (fst (train_step nt st dt))
           = snd (gradients nt (backbone st) (head st) (buffers st) (batch_im dt) (batch_labels dt))"
    and "(opt_state (fst (train_step nt st dt)), head (fst (train_step nt st dt)))
           = adam nt (opt_state st) (head st)
               (snd (gradients nt (backbone st) (head st) (buffers st) (batch_im dt) (batch_labels dt)))"
    and "opt_steps (fst (train_step nt st dt)) = opt_steps st + 1"
    and "training_loss (fst (train_step nt st dt))
           = training_loss st + criterion nt (fst (model_call nt st (batch_im dt))) (batch_labels dt)"
    and "stdout (fst (train_step nt st dt)) = stdout st"
    and "training (fst (train_step nt st dt)) = training st"
  by (simp_all add: train_step_def Let_def model_call_def zero_grad_def loss_backward_def
      optimizer_step_def split: prod.splits)

lemma after_batches_Suc:
  assumes "k < length bs"
  shows "after_batches nt st bs (Suc k) = fst (train_step nt (after_batches nt st bs k) (bs ! k))"
proof -
  have t: "take (Suc k) bs = take k bs @ [bs ! k]"
    using assms by (rule take_Suc_conv_app_nth)
  have n: "snd (for_each (train_step nt) st (map Inr (take k bs))) = None"
    by (rule for_each_total) (rule train_step_no_error)
  obtain s where s: "for_each (train_step nt) st (map Inr (take k bs)) = (s, None)"
    using n by (cases "for_each (train_step nt) st (map Inr (take k bs))") simp
  show ?thesis
    unfolding after_batches_def t
    using train_step_no_error [of nt s "bs ! k"]
    by (cases "train_step nt s (bs ! k)") (simp add: for_each_append s)
qed

lemma train_loop_result:
  "for_each (train_step nt) st (map Inr bs) = (after_batches nt st bs (length bs), None)"
  using for_each_total [of "train_step nt" st bs, OF train_step_no_error]
  by (cases "for_each (train_step nt) st (map Inr bs)") (simp add: after_batches_def)

lemma after_batches_training:
  fixes nt :: "('b::plus, 'h::monoid_add, 'u, 's, 'img) net"
  shows "training (after_batches nt st bs k) = training st"
  unfolding after_batches_def
  by (rule for_each_invariant [where P = "\<lambda>s. training s = training st"])
     (simp_all add: train_step_fields)

text \<open>
  Claim C7. The training loop takes the batches in the order of the loader, and on the
  batch at position \<open>k\<close> it makes a forward pass of the network in training mode over the
  images of the batch (which leaves the network's running state as that pass leaves it),
  computes the loss of the outputs of that pass and the labels with the loss function,
  leaves in the gradient of the head the gradient of this batch alone (the gradients are
  zeroed before the backward pass), makes exactly one optimiser step, with that gradient,
  and adds the loss to \<^verbatim>\<open>training_loss\<close>. The loop never raises by itself. The cell sets
  the training mode at the start of every round, which is the hypothesis on the state the
  loop starts in.
  (The source zeroes the gradients after the forward pass and before it computes the loss;
  computing the loss reads no gradient.)
\<close>

theorem train_step_per_batch:
  fixes nt :: "('b::plus, 'h::monoid_add, 'u, 's, 'img) net"
  assumes "k < length bs" and "training st"
  shows "(let s = after_batches nt st bs k; dt = bs ! k; s' = after_batches nt st bs (Suc k);
              forward = forward_train nt (backbone s) (head s) (buffers s) (batch_im dt);
              outputs = fst forward;
              g = snd (gradients nt (backbone s) (head s) (buffers s) (batch_im dt) (batch_labels dt))
          in buffers s' = snd forward
           \<and> head_grad s' = g
           \<and> (opt_state s', head s') = adam nt (opt_state s) (head s) g
           \<and> opt_steps s' = opt_steps s + 1
           \<and> training_loss s' = training_loss s + criterion nt outputs (batch_labels dt)
           \<and> backbone s' = backbone s)
       \<and> for_each (train_step nt) st (map Inr bs) = (after_batches nt st bs (length bs), None)"
proof -
  have t: "training (after_batches nt st bs k)"
    using assms(2) by (simp add: after_batches_training)
  have m: "model_call nt (after_batches nt st bs k) xs
      = (fst (forward_train nt (backbone (after_batches nt st bs k)) (head (after_batches nt st bs k))
                (buffers (after_batches nt st bs k)) xs),
         (after_batches nt st bs k)
           \<lparr>buffers := snd (forward_train nt (backbone (after_batches nt st bs k))
                (head (after_batches nt st bs k)) (buffers (after_batches nt st bs k)) xs)\<rparr>)" for xs
    using t by (simp add: model_call_def split: prod.splits)
  show ?thesis
    unfolding Let_def after_batches_Suc [OF assms(1)]
    using train_step_fields [of nt "after_batches nt st bs k" "bs ! k"] train_loop_result [of nt st bs]
    by (simp add: m)
qed

text \<open>The theorem at the second batch of the first round of the toy run: the network's
  running state counts its second forward pass in training mode, the stale gradient 5 and
  the gradient 2 of the first batch are gone, the head has made its second step, and the
  loss 1 of this batch was added to the loss 1/2 of the first.\<close>

theorem train_step_per_batch_witness:
  "(1::nat) < length [\<lparr>batch_im = [''a/1.jpg'', ''a/3.jpg''], batch_labels = [0, 1], batch_im_name = None\<rparr>,
                     \<lparr>batch_im = [''b/2.jpg''], batch_labels = [0], batch_im_name = None\<rparr>]
   \<and> training (epoch_init notebook0 0)
   \<and> buffers (after_batches toy_net (epoch_init notebook0 0)
         [\<lparr>batch_im = [''a/1.jpg'', ''a/3.jpg''], batch_labels = [0, 1], batch_im_name = None\<rparr>,
          \<lparr>batch_im = [''b/2.jpg''], batch_labels = [0], batch_im_name = None\<rparr>] 2) = 2
   \<and> head_grad (after_batches toy_net (epoch_init notebook0 0)
         [\<lparr>batch_im = [''a/1.jpg'', ''a/3.jpg''], batch_labels = [0, 1], batch_im_name = None\<rparr>,
          \<lparr>batch_im = [''b/2.jpg''], batch_labels = [0], batch_im_name = None\<rparr>] 2) = 1
   \<and> opt_steps (after_batches toy_net (epoch_init notebook0 0)
         [\<lparr>batch_im = [''a/1.jpg'', ''a/3.jpg''], batch_labels = [0, 1], batch_im_name = None\<rparr>,
          \<lparr>batch_im = [''b/2.jpg''], batch_labels = [0], batch_im_name = None\<rparr>] 2) = 2
   \<and> head (after_batches toy_net (epoch_init notebook0 0)
         [\<lparr>batch_im = [''a/1.jpg'', ''a/3.jpg''], batch_labels = [0, 1], batch_im_name = None\<rparr>,
          \<lparr>batch_im = [''b/2.jpg''], batch_labels = [0], batch_im_name = None\<rparr>] 2) = - 3
   \<and> training_loss (after_batches toy_net (epoch_init notebook0 0)
         [\<lparr>batch_im = [''a/1.jpg'', ''a/3.jpg''], batch_labels = [0, 1], batch_im_name = None\<rparr>,
          \<lparr>batch_im = [''b/2.jpg''], batch_labels = [0], batch_im_name = None\<rparr>] 2) = 3 / 2"
proof -
  let ?bs = "[\<lparr>batch_im = [''a/1.jpg'', ''a/3.jpg''], batch_labels = [0, 1], batch_im_name = None\<rparr>,
              \<lparr>batch_im = [''b/2.jpg''], batch_labels = [0], batch_im_name = None\<rparr>]"
  let ?s = "after_batches toy_net (epoch_init notebook0 0) ?bs 1"
  have h: "(1::nat) < length ?bs"
    by simp
  have t: "training (epoch_init notebook0 0)"
    by (simp add: epoch_init_def print_line_def)
  have s1: "opt_steps ?s = 1" "buffers ?s = 1" "training_loss ?s = 1 / 2" "head ?s = - 2"
      "opt_state ?s = 1"
    by code_simp+
  have f: "forward_train toy_net b hp (1::nat) (batch_im (?bs ! 1)) = ([[0, 1, 0]], 2)" for b hp
    by (simp add: toy_net_def)
  have c: "criterion toy_net [[0, 1, 0]] (batch_labels (?bs ! 1)) = 1"
    by (simp add: toy_net_def count_correct_def argmax_def)
  have c': "criterion toy_net [[0, 1, 0]] [0] = 1"
    using c by simp
  have g: "snd (gradients toy_net b hp u (batch_im (?bs ! 1)) (batch_labels (?bs ! 1))) = 1" for b hp u
    by (simp add: toy_net_def)
  have a: "adam toy_net (1::nat) (- 2) 1 = (2, - 3)"
    by (simp add: toy_net_def)
  from train_step_per_batch [OF h t, of toy_net]
  have "buffers (after_batches toy_net (epoch_init notebook0 0) ?bs (Suc 1)) = 2
        \<and> head_grad (after_batches toy_net (epoch_init notebook0 0) ?bs (Suc 1)) = 1
        \<and> opt_steps (after_batches toy_net (epoch_init notebook0 0) ?bs (Suc 1)) = 2
        \<and> head (after_batches toy_net (epoch_init notebook0 0) ?bs (Suc 1)) = - 3
        \<and> training_loss (after_batches toy_net (epoch_init notebook0 0) ?bs (Suc 1)) = 3 / 2"
    unfolding Let_def g s1 f c a by (simp add: c')
  then show ?thesis
    using h t by (simp add: numeral_2_eq_2)
qed

lemma freeze_weights_requires_grad:
  "requires_grad (freeze_weights st) = requires_grad st" "backbone (freeze_weights st) = backbone st"
  by (simp_all add: freeze_weights_def)

lemma valid_step_backbone: "backbone (fst (valid_step nt st dt)) = backbone st"
  by (simp add: valid_step_def Let_def model_call_def split: prod.splits)

lemma run_epoch_backbone:
  fixes nt :: "('b::plus, 'h::monoid_add, 'u, 's, 'img) net"
  shows "backbone (fst (run_epoch nt n1 n2 tb vb st epoch)) = backbone st"
proof -
  have i: "backbone (epoch_init st epoch) = backbone st"
    by (simp add: epoch_init_def print_line_def)
  have t: "backbone (fst (for_each (train_step nt) s tb)) = backbone st" if "backbone s = backbone st" for s
    using that by (rule for_each_invariant [rotated]) (simp add: train_step_fields)
  have v: "backbone (fst (for_each (valid_step nt) s vb)) = backbone st" if "backbone s = backbone st" for s
    using that by (rule for_each_invariant [rotated]) (simp add: valid_step_backbone)
  obtain s3 e3 where r3: "for_each (train_step nt) (epoch_init st epoch) tb = (s3, e3)"
    by (cases "for_each (train_step nt) (epoch_init st epoch) tb")
  have b3: "backbone s3 = backbone st" using t [OF i] r3 by simp
  define s5 where "s5 = (print_line (TrainingLoss (training_loss s3 / real n1)) s3)\<lparr>training := False\<rparr>"
  have b5: "backbone s5 = backbone st" using b3 by (simp add: s5_def print_line_def)
  obtain s6 e6 where r6: "for_each (valid_step nt) s5 vb = (s6, e6)"
    by (cases "for_each (valid_step nt) s5 vb")
  have b6: "backbone s6 = backbone st" using v [OF b5] r6 by simp
  have p: "backbone (print_line l s) = backbone s" for l and s :: "('b, 'h, 'u, 's) notebook"
    by (simp add: print_line_def)
  show ?thesis
    using b3 b6 r3 r6 [unfolded s5_def]
    by (simp add: run_epoch_def Let_def p split: option.splits)
qed

text \<open>
  Claim C6. Whatever the number of rounds, the loaders and the point where the cell may
  raise, the parameters of the backbone have after the training cell the value they had
  before it: the optimiser was given the parameters of \<^verbatim>\<open>model.fc\<close> only. (The freeze loop
  changes nothing for autograd, so \<^verbatim>\<open>.grad\<close> of the backbone is filled; the batch-norm
  statistics, which are buffers and not parameters, move with every forward pass in
  training mode.)
\<close>

theorem training_keeps_backbone:
  fixes nt :: "('b::plus, 'h::monoid_add, 'u, 's, 'img) net"
  shows "backbone (fst (training_cell nt dataset_size_train dataset_size_valid train_pass valid_pass
                          num_epochs st)) = backbone st"
  unfolding training_cell_def
  by (rule for_each_invariant [where P = "\<lambda>s. backbone s = backbone st"])
     (simp_all add: run_epoch_backbone)

text \<open>The theorem at the toy run of two rounds: the backbone is what it was, the head and
  the gradient of the backbone are not.\<close>

theorem training_keeps_backbone_witness:
  "backbone (fst (training_cell toy_net (FlowerDataset_len toy_train_set)
       (FlowerDataset_len toy_valid_set) toy_train_loader toy_valid_loader 2 notebook0)) = 7
   \<and> head (fst (training_cell toy_net (FlowerDataset_len toy_train_set)
       (FlowerDataset_len toy_valid_set) toy_train_loader toy_valid_loader 2 notebook0)) = - 6
   \<and> backbone_grad (fst (training_cell toy_net (FlowerDataset_len toy_train_set)
       (FlowerDataset_len toy_valid_set) toy_train_loader toy_valid_loader 2 notebook0)) = 4"
proof -
  have b: "backbone notebook0 = 7"
    by (simp add: notebook0_def)
  have h: "head (fst (training_cell toy_net (FlowerDataset_len toy_train_set)
       (FlowerDataset_len toy_valid_set) toy_train_loader toy_valid_loader 2 notebook0)) = - 6"
    by code_simp
  have g: "backbone_grad (fst (training_cell toy_net (FlowerDataset_len toy_train_set)
       (FlowerDataset_len toy_valid_set) toy_train_loader toy_valid_loader 2 notebook0)) = 4"
    by code_simp
  show ?thesis
    using training_keeps_backbone [of toy_net "FlowerDataset_len toy_train_set"
        "FlowerDataset_len toy_valid_set" toy_train_loader toy_valid_loader 2 notebook0] b h g
    by simp
qed

lemma train_loop_Cons:
  "for_each (train_step nt) st (Inr dt # rest) = for_each (train_step nt) (fst (train_step nt st dt)) rest"
  by (rule for_each_Inr_Cons) (rule train_step_no_error)

lemma train_loop_loss:
  fixes nt :: "('b::plus, 'h::monoid_add, 'u, 's, 'img) net"
  shows "training_loss (fst (for_each (train_step nt) st (map Inr bs)))
           = training_loss st + sum_list (train_losses nt st bs)"
proof (induction bs arbitrary: st)
  case Nil
  show ?case by simp
next
  case (Cons dt bs)
  show ?case
    using Cons [of "fst (train_step nt st dt)"]
    by (simp add: train_loop_Cons train_step_fields del: for_each.simps)
qed

lemma train_loop_stdout:
  fixes nt :: "('b::plus, 'h::monoid_add, 'u, 's, 'img) net"
  shows "stdout (fst (for_each (train_step nt) st xs)) = stdout st"
  by (rule for_each_invariant [where P = "\<lambda>s. stdout s = stdout st"])
     (simp_all add: train_step_fields)

lemma valid_step_eval:
  assumes "\<not> training st"
  shows "valid_step nt st dt =
           (st\<lparr>total := total st + length (batch_labels dt),
               correct_preds := correct_preds st + count_correct (valid_outputs nt st dt) (batch_labels dt),
               validation := validation st + criterion nt (valid_outputs nt st dt) (batch_labels dt)\<rparr>,
            None)"
  using assms by (simp add: valid_step_def Let_def model_call_def valid_outputs_def)

lemma valid_loop_stdout: "stdout (fst (for_each (valid_step nt) st xs)) = stdout st"
  by (rule for_each_invariant [where P = "\<lambda>s. stdout s = stdout st"])
     (simp_all add: valid_step_def Let_def model_call_def split: prod.splits)

lemma valid_loop_result:
  assumes "\<not> training st"
  shows "for_each (valid_step nt) st (map Inr vs) =
           (st\<lparr>total := total st + sum_list (map (\<lambda>dt. length (batch_labels dt)) vs),
               correct_preds := correct_preds st
                 + sum_list (map (\<lambda>dt. count_correct (valid_outputs nt st dt) (batch_labels dt)) vs),
               validation := validation st
                 + sum_list (map (\<lambda>dt. criterion nt (valid_outputs nt st dt) (batch_labels dt)) vs)\<rparr>,
            None)"
  using assms
proof (induction vs arbitrary: st)
  case Nil
  show ?case by simp
next
  case (Cons dt vs)
  define st1 where "st1 = st\<lparr>total := total st + length (batch_labels dt),
               correct_preds := correct_preds st + count_correct (valid_outputs nt st dt) (batch_labels dt),
               validation := validation st + criterion nt (valid_outputs nt st dt) (batch_labels dt)\<rparr>"
  have s: "valid_step nt st dt = (st1, None)"
    unfolding st1_def by (rule valid_step_eval [OF Cons.prems])
  have t: "\<not> training st1" using Cons.prems by (simp add: st1_def)
  have o: "valid_outputs nt st1 = valid_outputs nt st"
    by (rule ext) (simp add: valid_outputs_def st1_def)
  show ?case
    using Cons.IH [OF t]
    by (simp add: s o) (simp add: st1_def add.assoc)
qed

lemma count_correct_concat:
  "sum_list (map (\<lambda>dt. count_correct (f dt) (batch_labels dt)) vs)
     = length (filter (\<lambda>(row, l). int (argmax row) = l)
                 (concat (map (\<lambda>dt. zip (f dt) (batch_labels dt)) vs)))"
  by (induction vs) (simp_all add: count_correct_def)

lemma total_concat:
  "sum_list (map (\<lambda>dt. length (batch_labels dt)) vs) = length (concat (map batch_labels vs))"
  by (induction vs) simp_all

lemma epoch_init_fields:
  "stdout (epoch_init st epoch) = stdout st @ [EpochNumber (epoch + 1)]"
  "training_loss (epoch_init st epoch) = 0"
  "validation (epoch_init st epoch) = 0"
  "correct_preds (epoch_init st epoch) = 0"
  "total (epoch_init st epoch) = 0"
  "training (epoch_init st epoch)"
  by (simp_all add: epoch_init_def print_line_def)

lemma after_training_fields:
  fixes nt :: "('b::plus, 'h::monoid_add, 'u, 's, 'img) net"
  shows "stdout (after_batches nt (epoch_init st epoch) bs (length bs)) = stdout st @ [EpochNumber (epoch + 1)]"
    and "training_loss (after_batches nt (epoch_init st epoch) bs (length bs))
           = sum_list (train_losses nt (epoch_init st epoch) bs)"
    and "validation (after_batches nt (epoch_init st epoch) bs (length bs)) = 0"
    and "correct_preds (after_batches nt (epoch_init st epoch) bs (length bs)) = 0"
    and "total (after_batches nt (epoch_init st epoch) bs (length bs)) = 0"
proof -
  show "stdout (after_batches nt (epoch_init st epoch) bs (length bs)) = stdout st @ [EpochNumber (epoch + 1)]"
    by (simp add: after_batches_def train_loop_stdout epoch_init_fields)
  show "training_loss (after_batches nt (epoch_init st epoch) bs (length bs))
           = sum_list (train_losses nt (epoch_init st epoch) bs)"
    by (simp add: after_batches_def train_loop_loss epoch_init_fields)
  show "validation (after_batches nt (epoch_init st epoch) bs (length bs)) = 0"
    unfolding after_batches_def
    by (rule for_each_invariant [where P = "\<lambda>s. validation s = 0"])
       (simp_all add: epoch_init_fields train_step_def Let_def model_call_def zero_grad_def
          loss_backward_def optimizer_step_def split: prod.splits)
  show "correct_preds (after_batches nt (epoch_init st epoch) bs (length bs)) = 0"
    unfolding after_batches_def
    by (rule for_each_invariant [where P = "\<lambda>s. correct_preds s = 0"])
       (simp_all add: epoch_init_fields train_step_def Let_def model_call_def zero_grad_def
          loss_backward_def optimizer_step_def split: prod.splits)
  show "total (after_batches nt (epoch_init st epoch) bs (length bs)) = 0"
    unfolding after_batches_def
    by (rule for_each_invariant [where P = "\<lambda>s. total s = 0"])
       (simp_all add: epoch_init_fields train_step_def Let_def model_call_def zero_grad_def
          loss_backward_def optimizer_step_def split: prod.splits)
qed

lemma run_epoch_prints_training_loss:
  fixes nt :: "('b::plus, 'h::monoid_add, 'u, 's, 'img) net"
  assumes "dataset_size_train \<noteq> 0"
  shows "\<exists>rest. stdout (fst (run_epoch nt dataset_size_train dataset_size_valid (map Inr bs)
                              valid_batches st epoch))
           = stdout st
               @ [EpochNumber (epoch + 1),
                  TrainingLoss (sum_list (train_losses nt (epoch_init st epoch) bs)
                                / real dataset_size_train)]
               @ rest
         \<and> (\<forall>x. TrainingLoss x \<notin> set rest)"
proof -
  define s3 where "s3 = after_batches nt (epoch_init st epoch) bs (length bs)"
  define s5 where "s5 = (print_line (TrainingLoss (training_loss s3 / real dataset_size_train)) s3)
                          \<lparr>training := False\<rparr>"
  have r3: "for_each (train_step nt) (epoch_init st epoch) (map Inr bs) = (s3, None)"
    unfolding s3_def by (rule train_loop_result)
  have o5: "stdout s5 = stdout st @ [EpochNumber (epoch + 1),
       TrainingLoss (sum_list (train_losses nt (epoch_init st epoch) bs) / real dataset_size_train)]"
    by (simp add: s5_def s3_def print_line_def after_training_fields)
  obtain s6 e6 where r6: "for_each (valid_step nt) s5 valid_batches = (s6, e6)"
    by (cases "for_each (valid_step nt) s5 valid_batches")
  have o6: "stdout s6 = stdout s5"
    using valid_loop_stdout [of nt s5 valid_batches] r6 by simp
  have run: "run_epoch nt dataset_size_train dataset_size_valid (map Inr bs) valid_batches st epoch
      = (case e6 of
           Some e \<Rightarrow> (s6, Some e)
         | None \<Rightarrow>
            if total s6 = 0 then (s6, Some ZeroDivisionError)
            else
              let st7 = s6\<lparr>val_acc := 100 * (real (correct_preds s6) / real (total s6))\<rparr>
              in if dataset_size_valid = 0 then (st7, Some ZeroDivisionError)
                 else
                   (print_line (ValidationAccuracy (val_acc st7))
                      (print_line (ValidationLoss (validation st7 / real dataset_size_valid)) st7),
                    None))"
    using assms r6 [unfolded s5_def]
    by (simp add: run_epoch_def r3 Let_def split: option.splits)
  show ?thesis
    unfolding run
    by (cases e6; cases "total s6 = 0"; cases "dataset_size_valid = 0")
       (simp_all add: Let_def print_line_def o6 o5)
qed

lemma run_epoch_prints_validation:
  fixes nt :: "('b::plus, 'h::monoid_add, 'u, 's, 'img) net"
  assumes "dataset_size_train \<noteq> 0" and "dataset_size_valid \<noteq> 0"
    and "concat (map batch_labels vs) \<noteq> []"
  shows "(let s = after_batches nt (epoch_init st epoch) bs (length bs);
              val_losses = map (\<lambda>dt. criterion nt (valid_outputs nt s dt) (batch_labels dt)) vs;
              scored = concat (map (\<lambda>dt. zip (valid_outputs nt s dt) (batch_labels dt)) vs);
              correct = length (filter (\<lambda>(row, l). int (argmax row) = l) scored);
              n = length (concat (map batch_labels vs))
          in \<exists>st'. run_epoch nt dataset_size_train dataset_size_valid (map Inr bs) (map Inr vs) st epoch
                      = (st', None)
               \<and> stdout st'
                   = stdout st
                       @ [EpochNumber (epoch + 1),
                          TrainingLoss (sum_list (train_losses nt (epoch_init st epoch) bs)
                                        / real dataset_size_train),
                          ValidationLoss (sum_list val_losses / real dataset_size_valid),
                          ValidationAccuracy (100 * (real correct / real n))])"
proof -
  define s3 where "s3 = after_batches nt (epoch_init st epoch) bs (length bs)"
  define s5 where "s5 = (print_line (TrainingLoss (training_loss s3 / real dataset_size_train)) s3)
                          \<lparr>training := False\<rparr>"
  define n where "n = sum_list (map (\<lambda>dt. length (batch_labels dt)) vs)"
  define c where "c = sum_list (map (\<lambda>dt. count_correct (valid_outputs nt s3 dt) (batch_labels dt)) vs)"
  define v where "v = sum_list (map (\<lambda>dt. criterion nt (valid_outputs nt s3 dt) (batch_labels dt)) vs)"
  have r3: "for_each (train_step nt) (epoch_init st epoch) (map Inr bs) = (s3, None)"
    unfolding s3_def by (rule train_loop_result)
  have o5: "stdout s5 = stdout st @ [EpochNumber (epoch + 1),
       TrainingLoss (sum_list (train_losses nt (epoch_init st epoch) bs) / real dataset_size_train)]"
    by (simp add: s5_def s3_def print_line_def after_training_fields)
  have f5: "total s5 = 0" "correct_preds s5 = 0" "validation s5 = 0" "\<not> training s5"
    by (simp_all add: s5_def s3_def print_line_def after_training_fields)
  have vo: "valid_outputs nt s5 = valid_outputs nt s3"
    by (rule ext) (simp add: valid_outputs_def s5_def print_line_def)
  have r6: "for_each (valid_step nt) s5 (map Inr vs)
      = (s5\<lparr>total := n, correct_preds := c, validation := v\<rparr>, None)"
    unfolding valid_loop_result [OF f5(4)] vo by (simp add: f5 n_def c_def v_def)
  have n0: "n \<noteq> 0"
    using assms(3) unfolding n_def total_concat by simp
  have run: "run_epoch nt dataset_size_train dataset_size_valid (map Inr bs) (map Inr vs) st epoch
      = (print_line (ValidationAccuracy (100 * (real c / real n)))
           (print_line (ValidationLoss (v / real dataset_size_valid))
              (s5\<lparr>total := n, correct_preds := c, validation := v,
                  val_acc := 100 * (real c / real n)\<rparr>)),
         None)"
    using assms(1,2) n0 r6 [unfolded s5_def]
    by (simp add: run_epoch_def r3 Let_def s5_def)
  show ?thesis
    unfolding Let_def s3_def [symmetric] run
    by (simp add: print_line_def o5 c_def v_def n_def count_correct_concat total_concat)
qed

lemma training_cell_Suc:
  "training_cell nt n1 n2 trl vl (Suc e) st =
     (case training_cell nt n1 n2 trl vl e st of
        (s, None) \<Rightarrow> run_epoch nt n1 n2 (trl e) (vl e) s e
      | (s, Some err) \<Rightarrow> (s, Some err))"
  unfolding training_cell_def
  by (simp add: for_each_append split: prod.splits option.splits)

lemma training_cell_prints_training_loss:
  fixes nt :: "('b::plus, 'h::monoid_add, 'u, 's, 'img) net"
  assumes "training_cell nt dataset_size_train dataset_size_valid train_pass valid_pass epoch st
             = (s, None)"
    and "train_pass epoch = map Inr bs"
    and "dataset_size_train \<noteq> 0"
  shows "\<exists>rest. stdout (fst (training_cell nt dataset_size_train dataset_size_valid train_pass
                              valid_pass (Suc epoch) st))
           = stdout s
               @ [EpochNumber (epoch + 1),
                  TrainingLoss (sum_list (train_losses nt (epoch_init s epoch) bs)
                                / real dataset_size_train)]
               @ rest
         \<and> (\<forall>x. TrainingLoss x \<notin> set rest)"
  unfolding training_cell_Suc assms(1)
  using run_epoch_prints_training_loss [OF assms(3), of nt dataset_size_valid bs "valid_pass epoch" s epoch]
  by (simp add: assms(2))

lemma training_cell_start: "training_cell nt n1 n2 trl vl 0 st = (st, None)"
  by (simp add: training_cell_def)

lemma training_cell_prints_validation:
  fixes nt :: "('b::plus, 'h::monoid_add, 'u, 's, 'img) net"
  assumes "training_cell nt dataset_size_train dataset_size_valid train_pass valid_pass epoch st
             = (s, None)"
    and "train_pass epoch = map Inr bs" and "valid_pass epoch = map Inr vs"
    and "dataset_size_train \<noteq> 0" and "dataset_size_valid \<noteq> 0"
    and "concat (map batch_labels vs) \<noteq> []"
  shows "(let m = after_batches nt (epoch_init s epoch) bs (length bs);
              val_losses = map (\<lambda>dt. criterion nt (valid_outputs nt m dt) (batch_labels dt)) vs;
              scored = concat (map (\<lambda>dt. zip (valid_outputs nt m dt) (batch_labels dt)) vs);
              correct = length (filter (\<lambda>(row, l). int (argmax row) = l) scored);
              n = length (concat (map batch_labels vs))
          in \<exists>st'. training_cell nt dataset_size_train dataset_size_valid train_pass valid_pass
                        (Suc epoch) st = (st', None)
               \<and> stdout st'
                   = stdout s
                       @ [EpochNumber (epoch + 1),
                          TrainingLoss (sum_list (train_losses nt (epoch_init s epoch) bs)
                                        / real dataset_size_train),
                          ValidationLoss (sum_list val_losses / real dataset_size_valid),
                          ValidationAccuracy (100 * (real correct / real n))])"
  unfolding training_cell_Suc assms(1)
  using run_epoch_prints_validation [OF assms(4,5,6), of nt s epoch bs]
  by (simp add: assms(2,3))

lemma chunks_count_step:
  assumes "0 < (n::nat)" and "0 < l"
  shows "(l + n - 1) div n = Suc ((l - n + n - 1) div n)"
proof (cases "n \<le> l")
  case True
  then have e: "l + n - 1 = (l - 1) + n" using assms by arith
  have d: "((l - 1) + n) div n = Suc ((l - 1) div n)"
    using assms(1) div_add_self2 [of n "l - 1"] by simp
  have f: "l - n + n - 1 = l - 1" using True by arith
  show ?thesis
    by (simp only: e d f)
next
  case False
  then have "l - n + n - 1 < n" using assms by arith
  then have z: "(l - n + n - 1) div n = 0" by (rule div_less)
  have "n * 1 \<le> l + n - 1" "l + n - 1 < n * Suc 1" using assms False by arith+
  then have o: "(l + n - 1) div n = 1"
    by (rule div_nat_eqI)
  show ?thesis
    by (simp only: z o)
qed

lemma length_chunks: "0 < n \<Longrightarrow> length (chunks n xs) = (length xs + n - 1) div n"
proof (induction n xs rule: chunks.induct)
  case (1 n xs)
  show ?case
  proof (cases "xs = []")
    case True
    have "chunks n xs = []" using True by (subst chunks.simps) simp
    then show ?thesis using True 1(2) by simp
  next
    case False
    have c: "chunks n xs = take n xs # chunks n (drop n xs)"
      using False 1(2) by (subst chunks.simps) simp
    have "\<not> (n = 0 \<or> xs = [])" using False 1(2) by simp
    from 1(1) [OF this 1(2)]
    have ih: "length (chunks n (drop n xs)) = (length xs - n + n - 1) div n"
      by simp
    have l: "0 < length xs" using False by simp
    have "length (chunks n xs) = Suc (length (chunks n (drop n xs)))"
      unfolding c by simp
    also have "\<dots> = Suc ((length xs - n + n - 1) div n)"
      by (simp only: ih)
    also have "\<dots> = (length xs + n - 1) div n"
      by (rule chunks_count_step [OF 1(2) l, symmetric])
    finally show ?thesis .
  qed
qed

lemma after_batches_0: "after_batches nt st bs 0 = st"
  by (simp add: after_batches_def)

lemma after_batches_Cons:
  "after_batches nt st (dt # bs) (Suc k) = after_batches nt (fst (train_step nt st dt)) bs k"
  by (simp add: after_batches_def train_loop_Cons del: for_each.simps)

lemma train_losses_nth:
  fixes nt :: "('b::plus, 'h::monoid_add, 'u, 's, 'img) net"
  shows "train_losses nt st bs
           = map (\<lambda>k. criterion nt (fst (model_call nt (after_batches nt st bs k) (batch_im (bs ! k))))
                         (batch_labels (bs ! k)))
               [0..<length bs]"
proof (induction bs arbitrary: st)
  case Nil
  show ?case by simp
next
  case (Cons dt bs)
  have u: "[0..<length (dt # bs)] = 0 # map Suc [0..<length bs]"
    by (simp add: upt_conv_Cons map_Suc_upt del: upt_Suc)
  show ?case
    unfolding u
    by (simp add: after_batches_0 after_batches_Cons Cons [of "fst (train_step nt st dt)"] comp_def)
qed

lemma train_losses_forward_train:
  fixes nt :: "('b::plus, 'h::monoid_add, 'u, 's, 'img) net"
  assumes "training st"
  shows "train_losses nt st bs
           = map (\<lambda>k. criterion nt
                         (fst (forward_train nt (backbone (after_batches nt st bs k))
                                 (head (after_batches nt st bs k)) (buffers (after_batches nt st bs k))
                                 (batch_im (bs ! k))))
                         (batch_labels (bs ! k)))
               [0..<length bs]"
  unfolding train_losses_nth
  using assms by (simp add: model_call_def after_batches_training split: prod.splits)

lemma DataLoader_length:
  "length (DataLoader unicode_lower image_open ds batch_size sampler) = length (chunks batch_size sampler)"
  by (simp add: DataLoader_def)

lemma permutation_length:
  assumes "distinct xs" and "set xs = {0..<n}"
  shows "length xs = n"
  using distinct_card [OF assms(1)] assms(2) by simp


text \<open>
  Claim C3. In every round of the training cell that the cell reaches, with the loaders and
  the sizes of the notebook, a training set that is not empty and whose samples all load,
  and the order of the round a shuffle of the indices of the training set: the pass of
  the training loader is a list of batches that hold, together, as many samples as the
  training set has, in as many batches as a fifth of that number rounded up; and the
  training loss that is printed is the sum of the loss values of these batches, each the
  value of the loss function on the outputs of the forward pass over that batch in
  training mode and its labels (its mean loss), divided by the number of samples of the
  training set, \<^verbatim>\<open>len(train_dataset)\<close>, which is the number of samples of the batches. No
  other training loss is printed in the round.
\<close>

theorem epoch_training_loss:
  fixes nt :: "('b::plus, 'h::monoid_add, 'u, 's, 'img) net"
  assumes "notebook_training nt unicode_lower image_open train_dataset valid_dataset shuffled epoch st
             = (s, None)"
    and "distinct (shuffled epoch)"
    and "set (shuffled epoch) = {0..<FlowerDataset_len train_dataset}"
    and "\<forall>i < FlowerDataset_len train_dataset.
           \<exists>smp. FlowerDataset_getitem unicode_lower image_open train_dataset i = Inr smp"
    and "FlowerDataset_len train_dataset \<noteq> 0"
  shows "\<exists>bs rest.
           train_loader unicode_lower image_open train_dataset (shuffled epoch) = map Inr bs
         \<and> length (concat (map batch_labels bs)) = FlowerDataset_len train_dataset
         \<and> length bs = (FlowerDataset_len train_dataset + 4) div 5
         \<and> (let batch_loss = (\<lambda>k.
                   let m = after_batches nt (epoch_init s epoch) bs k; dt = bs ! k
                   in criterion nt
                        (fst (forward_train nt (backbone m) (head m) (buffers m) (batch_im dt)))
                        (batch_labels dt))
             in stdout (fst (notebook_training nt unicode_lower image_open train_dataset valid_dataset
                               shuffled (Suc epoch) st))
                  = stdout s
                      @ [EpochNumber (epoch + 1),
                         TrainingLoss (sum_list (map batch_loss [0..<length bs])
                                       / real (length (concat (map batch_labels bs))))]
                      @ rest)
         \<and> (\<forall>x. TrainingLoss x \<notin> set rest)"
proof -
  let ?n = "FlowerDataset_len train_dataset"
  have len: "length (shuffled epoch) = ?n"
    using assms(2,3) by (rule permutation_length)
  have "\<forall>i \<in> set (shuffled epoch).
          \<exists>smp. FlowerDataset_getitem unicode_lower image_open train_dataset i = Inr smp"
    using assms(3,4) by simp
  from DataLoader_all_loaded [of 5, OF _ this] obtain bs where
    bs: "DataLoader unicode_lower image_open train_dataset 5 (shuffled epoch) = map Inr bs"
      "length (concat (map batch_labels bs)) = length (shuffled epoch)"
    by auto
  have tl: "train_loader unicode_lower image_open train_dataset (shuffled epoch) = map Inr bs"
    by (simp add: train_loader_def bs(1))
  have "length bs = length (DataLoader unicode_lower image_open train_dataset 5 (shuffled epoch))"
    by (simp add: bs(1))
  then have nb: "length bs = (?n + 4) div 5"
    by (simp add: DataLoader_length length_chunks len)
  have tr: "training (epoch_init s epoch)"
    by (rule epoch_init_fields)
  from training_cell_prints_training_loss
    [OF assms(1) [unfolded notebook_training_def], of bs, OF tl assms(5)]
  obtain rest where
    r: "stdout (fst (notebook_training nt unicode_lower image_open train_dataset valid_dataset
                       shuffled (Suc epoch) st))
          = stdout s
              @ [EpochNumber (epoch + 1),
                 TrainingLoss (sum_list (train_losses nt (epoch_init s epoch) bs) / real ?n)]
              @ rest"
      "\<forall>x. TrainingLoss x \<notin> set rest"
    unfolding notebook_training_def by auto
  show ?thesis
    apply (rule exI [of _ bs])
    apply (rule exI [of _ rest])
    using tl nb bs(2) r
    by (simp add: Let_def len train_losses_forward_train [OF tr])
qed

text \<open>The theorem at the second round of a run on six training files, with the toy network.
  The pass has a batch of five files, one of them classified wrongly (loss 1/5), and a
  batch of one file, classified wrongly (loss 1): the loss printed is 6/5 divided by 6,
  where the mean over the two batches is 3/5 and the share of wrong files is 1/3. In the
  first round, which is shuffled, the batches have the losses 2/5 and 0: the loss printed
  is 1/15.\<close>

theorem epoch_training_loss_witness:
  "distinct (toy_shuffle 1) \<and> set (toy_shuffle 1) = {0..<FlowerDataset_len toy_six}
   \<and> FlowerDataset_len toy_six = 6
   \<and> (\<exists>rest. stdout (fst (notebook_training toy_net (\<lambda>s. s) (\<lambda>p. Some p) toy_six toy_valid_set
                            toy_shuffle 2 notebook0))
         = [EpochNumber 1, TrainingLoss (1 / 15), ValidationLoss (1 / 2), ValidationAccuracy 50,
            EpochNumber 2, TrainingLoss (1 / 5)] @ rest)"
proof -
  let ?run = "notebook_training toy_net (\<lambda>s. s) (\<lambda>p. Some p) toy_six toy_valid_set toy_shuffle"
  let ?s = "fst (?run 1 notebook0)"
  let ?bs = "[\<lparr>batch_im = [''a/1.jpg'', ''a/2.jpg'', ''a/3.jpg'', ''a/4.jpg'', ''a/5.jpg''],
               batch_labels = [0, 0, 0, 0, 1], batch_im_name = None\<rparr>,
              \<lparr>batch_im = [''b/6.jpg''], batch_labels = [0], batch_im_name = None\<rparr>]"
  have n: "FlowerDataset_len toy_six = 6"
    by code_simp
  have e: "snd (?run 1 notebook0) = None"
    by code_simp
  have h1: "?run 1 notebook0 = (?s, None)"
    using e by (simp add: prod_eq_iff)
  have h2: "distinct (toy_shuffle 1)"
    by (simp add: toy_shuffle_def)
  have h3: "set (toy_shuffle 1) = {0..<FlowerDataset_len toy_six}"
    unfolding n by (auto simp: toy_shuffle_def)
  have g: "\<forall>i \<in> set [0..<6]. case FlowerDataset_getitem (\<lambda>s. s) (\<lambda>p. Some p) toy_six i of
                                  Inl e \<Rightarrow> False | Inr smp \<Rightarrow> True"
    by code_simp
  have h4: "\<forall>i < FlowerDataset_len toy_six.
      \<exists>smp. FlowerDataset_getitem (\<lambda>s. s) (\<lambda>p. Some p) toy_six i = Inr smp"
    unfolding n
  proof (intro allI impI)
    fix i :: nat
    assume "i < 6"
    then have "i \<in> set [0..<6]" by simp
    with g have "case FlowerDataset_getitem (\<lambda>s. s) (\<lambda>p. Some p) toy_six i of
                   Inl e \<Rightarrow> False | Inr smp \<Rightarrow> True"
      by blast
    then show "\<exists>smp. FlowerDataset_getitem (\<lambda>s. s) (\<lambda>p. Some p) toy_six i = Inr smp"
      by (cases "FlowerDataset_getitem (\<lambda>s. s) (\<lambda>p. Some p) toy_six i") simp_all
  qed
  have h5: "FlowerDataset_len toy_six \<noteq> 0"
    unfolding n by simp
  have b: "train_loader (\<lambda>s. s) (\<lambda>p. Some p) toy_six (toy_shuffle 1) = map Inr ?bs"
    by code_simp
  have o: "stdout ?s = [EpochNumber 1, TrainingLoss (1 / 15), ValidationLoss (1 / 2),
                        ValidationAccuracy 50]"
    by code_simp
  have l: "sum_list (map (\<lambda>k. criterion toy_net
              (fst (forward_train toy_net (backbone (after_batches toy_net (epoch_init ?s 1) ?bs k))
                      (head (after_batches toy_net (epoch_init ?s 1) ?bs k))
                      (buffers (after_batches toy_net (epoch_init ?s 1) ?bs k))
                      (batch_im (?bs ! k))))
              (batch_labels (?bs ! k))) [0..<length ?bs])
          / real (length (concat (map batch_labels ?bs))) = 1 / 5"
    by code_simp
  from epoch_training_loss [OF h1 h2 h3 h4 h5] obtain bs rest where
    r: "train_loader (\<lambda>s. s) (\<lambda>p. Some p) toy_six (toy_shuffle 1) = map Inr bs"
       "(let batch_loss = (\<lambda>k.
                   let m = after_batches toy_net (epoch_init ?s 1) bs k; dt = bs ! k
                   in criterion toy_net
                        (fst (forward_train toy_net (backbone m) (head m) (buffers m) (batch_im dt)))
                        (batch_labels dt))
             in stdout (fst (?run (Suc 1) notebook0))
                  = stdout ?s
                      @ [EpochNumber (1 + 1),
                         TrainingLoss (sum_list (map batch_loss [0..<length bs])
                                       / real (length (concat (map batch_labels bs))))]
                      @ rest)"
    by blast
  have "map Inr bs = (map Inr ?bs :: (py_error + string batch) list)"
    by (rule trans [OF r(1) [symmetric] b])
  then have bs: "bs = ?bs"
    by (rule map_injective) simp
  have "stdout (fst (?run (Suc 1) notebook0))
      = [EpochNumber 1, TrainingLoss (1 / 15), ValidationLoss (1 / 2), ValidationAccuracy 50,
         EpochNumber 2, TrainingLoss (1 / 5)] @ rest"
    using r(2) unfolding bs Let_def l o by simp
  then show ?thesis
    using h2 h3 n by (auto simp: numeral_2_eq_2)
qed

text \<open>
  Claim C8. In every round that the cell reaches, with the loaders and the sizes of the
  notebook, training and validation sets that are not empty and whose samples all load, and
  the order of the round a shuffle of the indices of the training set: the pass of the
  validation loader is a list of batches that hold, together, as many samples as the
  validation set has; the round ends without an error and prints, after the training loss,
  the validation loss, which is the sum of the loss values of the validation batches
  divided by the number of samples of the validation set, \<^verbatim>\<open>len(valid_dataset)\<close>, and the
  validation accuracy, which is 100 times the number of validation samples whose arg-max
  class equals their label, divided by the number of validation samples seen, which is the
  same number. The scores are those of the model as the round's training left it, in
  evaluation mode.
\<close>

theorem epoch_validation_report:
  fixes nt :: "('b::plus, 'h::monoid_add, 'u, 's, 'img) net"
  assumes "notebook_training nt unicode_lower image_open train_dataset valid_dataset shuffled epoch st
             = (s, None)"
    and "distinct (shuffled epoch)"
    and "set (shuffled epoch) = {0..<FlowerDataset_len train_dataset}"
    and "\<forall>i < FlowerDataset_len train_dataset.
           \<exists>smp. FlowerDataset_getitem unicode_lower image_open train_dataset i = Inr smp"
    and "\<forall>i < FlowerDataset_len valid_dataset.
           \<exists>smp. FlowerDataset_getitem unicode_lower image_open valid_dataset i = Inr smp"
    and "FlowerDataset_len train_dataset \<noteq> 0" and "FlowerDataset_len valid_dataset \<noteq> 0"
  shows "\<exists>bs vs st'.
           train_loader unicode_lower image_open train_dataset (shuffled epoch) = map Inr bs
         \<and> val_loader unicode_lower image_open valid_dataset = map Inr vs
         \<and> length (concat (map batch_labels vs)) = FlowerDataset_len valid_dataset
         \<and> length vs = FlowerDataset_len valid_dataset
         \<and> notebook_training nt unicode_lower image_open train_dataset valid_dataset shuffled
              (Suc epoch) st = (st', None)
         \<and> (let m = after_batches nt (epoch_init s epoch) bs (length bs);
                 val_losses = map (\<lambda>dt. criterion nt (valid_outputs nt m dt) (batch_labels dt)) vs;
                 scored = concat (map (\<lambda>dt. zip (valid_outputs nt m dt) (batch_labels dt)) vs);
                 correct = length (filter (\<lambda>(row, l). int (argmax row) = l) scored);
                 n = length (concat (map batch_labels vs))
             in stdout st'
                  = stdout s
                      @ [EpochNumber (epoch + 1),
                         TrainingLoss (sum_list (train_losses nt (epoch_init s epoch) bs)
                                       / real (FlowerDataset_len train_dataset)),
                         ValidationLoss (sum_list val_losses / real n),
                         ValidationAccuracy (100 * (real correct / real n))])"
proof -
  let ?n = "FlowerDataset_len train_dataset" and ?k = "FlowerDataset_len valid_dataset"
  have "\<forall>i \<in> set (shuffled epoch).
          \<exists>smp. FlowerDataset_getitem unicode_lower image_open train_dataset i = Inr smp"
    using assms(3,4) by simp
  from DataLoader_all_loaded [of 5, OF _ this] obtain bs where
    bs: "DataLoader unicode_lower image_open train_dataset 5 (shuffled epoch) = map Inr bs"
    by auto
  have tl: "train_loader unicode_lower image_open train_dataset (shuffled epoch) = map Inr bs"
    by (simp add: train_loader_def bs)
  have "\<forall>i \<in> set (sequential valid_dataset).
          \<exists>smp. FlowerDataset_getitem unicode_lower image_open valid_dataset i = Inr smp"
    using assms(5) by (simp add: sequential_def)
  from DataLoader_all_loaded [of 1, OF _ this] obtain vs where
    vs: "DataLoader unicode_lower image_open valid_dataset 1 (sequential valid_dataset) = map Inr vs"
      "length (concat (map batch_labels vs)) = length (sequential valid_dataset)"
    by auto
  have vl: "val_loader unicode_lower image_open valid_dataset = map Inr vs"
    unfolding val_loader_def by (rule vs(1))
  have vn: "length (concat (map batch_labels vs)) = ?k"
    by (simp add: vs(2) sequential_def)
  have "length vs = length (DataLoader unicode_lower image_open valid_dataset 1 (sequential valid_dataset))"
    unfolding vs(1) by simp
  then have nv: "length vs = ?k"
    by (simp add: DataLoader_length length_chunks sequential_def)
  have "length (concat (map batch_labels vs)) \<noteq> 0"
    unfolding vn by (rule assms(7))
  then have ne: "concat (map batch_labels vs) \<noteq> []"
    unfolding length_0_conv .
  from training_cell_prints_validation
    [OF assms(1) [unfolded notebook_training_def], of bs vs, OF tl vl assms(6,7) ne]
  obtain st' where
    r: "notebook_training nt unicode_lower image_open train_dataset valid_dataset shuffled
          (Suc epoch) st = (st', None)"
       "stdout st'
          = stdout s
              @ [EpochNumber (epoch + 1),
                 TrainingLoss (sum_list (train_losses nt (epoch_init s epoch) bs) / real ?n),
                 ValidationLoss
                   (sum_list (map (\<lambda>dt. criterion nt
                        (valid_outputs nt (after_batches nt (epoch_init s epoch) bs (length bs)) dt)
                        (batch_labels dt)) vs) / real ?k),
                 ValidationAccuracy
                   (100 * (real (length (filter (\<lambda>(row, l). int (argmax row) = l)
                        (concat (map (\<lambda>dt. zip
                           (valid_outputs nt (after_batches nt (epoch_init s epoch) bs (length bs)) dt)
                           (batch_labels dt)) vs))))
                      / real (length (concat (map batch_labels vs)))))]"
    unfolding notebook_training_def Let_def by auto
  show ?thesis
    apply (rule exI [of _ bs])
    apply (rule exI [of _ vs])
    apply (rule exI [of _ st'])
    using tl vl vn nv r
    by (simp add: Let_def)
qed

text \<open>The theorem at the first round of the run on six training files: two validation
  samples in batches of one, the first classified correctly (loss 0), the second wrongly
  (loss 1).\<close>

theorem epoch_validation_report_witness:
  "notebook_training toy_net (\<lambda>s. s) (\<lambda>p. Some p) toy_six toy_valid_set toy_shuffle 0 notebook0
     = (notebook0, None)
   \<and> distinct (toy_shuffle 0) \<and> set (toy_shuffle 0) = {0..<FlowerDataset_len toy_six}
   \<and> FlowerDataset_len toy_valid_set = 2
   \<and> (\<exists>st'. notebook_training toy_net (\<lambda>s. s) (\<lambda>p. Some p) toy_six toy_valid_set toy_shuffle 1 notebook0
               = (st', None)
          \<and> stdout st' = [EpochNumber 1, TrainingLoss (1 / 15), ValidationLoss (1 / 2),
                            ValidationAccuracy 50])"
proof -
  let ?run = "notebook_training toy_net (\<lambda>s. s) (\<lambda>p. Some p) toy_six toy_valid_set toy_shuffle"
  let ?bs = "[\<lparr>batch_im = [''a/5.jpg'', ''a/1.jpg'', ''b/6.jpg'', ''a/2.jpg'', ''a/3.jpg''],
               batch_labels = [1, 0, 0, 0, 0], batch_im_name = None\<rparr>,
              \<lparr>batch_im = [''a/4.jpg''], batch_labels = [0], batch_im_name = None\<rparr>]"
  let ?vs = "[\<lparr>batch_im = [''a/4.jpg''], batch_labels = [0], batch_im_name = None\<rparr>,
              \<lparr>batch_im = [''b/5.jpg''], batch_labels = [0], batch_im_name = None\<rparr>]"
  let ?m = "after_batches toy_net (epoch_init notebook0 0) ?bs (length ?bs)"
  have n: "FlowerDataset_len toy_six = 6" and k: "FlowerDataset_len toy_valid_set = 2"
    by code_simp+
  have h1: "?run 0 notebook0 = (notebook0, None)"
    by (simp add: notebook_training_def training_cell_start)
  have h2: "distinct (toy_shuffle 0)"
    by (simp add: toy_shuffle_def)
  have h3: "set (toy_shuffle 0) = {0..<FlowerDataset_len toy_six}"
    unfolding n by (auto simp: toy_shuffle_def)
  have g: "\<forall>i \<in> set [0..<6]. case FlowerDataset_getitem (\<lambda>s. s) (\<lambda>p. Some p) toy_six i of
                                  Inl e \<Rightarrow> False | Inr smp \<Rightarrow> True"
    by code_simp
  have h4: "\<forall>i < FlowerDataset_len toy_six.
      \<exists>smp. FlowerDataset_getitem (\<lambda>s. s) (\<lambda>p. Some p) toy_six i = Inr smp"
    unfolding n
  proof (intro allI impI)
    fix i :: nat
    assume "i < 6"
    then have "i \<in> set [0..<6]" by simp
    with g have "case FlowerDataset_getitem (\<lambda>s. s) (\<lambda>p. Some p) toy_six i of
                   Inl e \<Rightarrow> False | Inr smp \<Rightarrow> True"
      by blast
    then show "\<exists>smp. FlowerDataset_getitem (\<lambda>s. s) (\<lambda>p. Some p) toy_six i = Inr smp"
      by (cases "FlowerDataset_getitem (\<lambda>s. s) (\<lambda>p. Some p) toy_six i") simp_all
  qed
  have g2: "\<forall>i \<in> set [0..<2]. case FlowerDataset_getitem (\<lambda>s. s) (\<lambda>p. Some p) toy_valid_set i of
                                   Inl e \<Rightarrow> False | Inr smp \<Rightarrow> True"
    by code_simp
  have h5: "\<forall>i < FlowerDataset_len toy_valid_set.
      \<exists>smp. FlowerDataset_getitem (\<lambda>s. s) (\<lambda>p. Some p) toy_valid_set i = Inr smp"
    unfolding k
  proof (intro allI impI)
    fix i :: nat
    assume "i < 2"
    then have "i \<in> set [0..<2]" by simp
    with g2 have "case FlowerDataset_getitem (\<lambda>s. s) (\<lambda>p. Some p) toy_valid_set i of
                    Inl e \<Rightarrow> False | Inr smp \<Rightarrow> True"
      by blast
    then show "\<exists>smp. FlowerDataset_getitem (\<lambda>s. s) (\<lambda>p. Some p) toy_valid_set i = Inr smp"
      by (cases "FlowerDataset_getitem (\<lambda>s. s) (\<lambda>p. Some p) toy_valid_set i") simp_all
  qed
  have h6: "FlowerDataset_len toy_six \<noteq> 0" and h7: "FlowerDataset_len toy_valid_set \<noteq> 0"
    unfolding n k by simp_all
  have b: "train_loader (\<lambda>s. s) (\<lambda>p. Some p) toy_six (toy_shuffle 0) = map Inr ?bs"
    by code_simp
  have v: "val_loader (\<lambda>s. s) (\<lambda>p. Some p) toy_valid_set = map Inr ?vs"
    by code_simp
  have o: "stdout notebook0 = []"
    by (simp add: notebook0_def)
  have l: "sum_list (train_losses toy_net (epoch_init notebook0 0) ?bs)
             / real (FlowerDataset_len toy_six) = 1 / 15"
    by code_simp
  have vlo: "sum_list (map (\<lambda>dt. criterion toy_net (valid_outputs toy_net ?m dt) (batch_labels dt)) ?vs)
      / real (length (concat (map batch_labels ?vs))) = 1 / 2"
    by code_simp
  have a: "100 * (real (length (filter (\<lambda>(row, l). int (argmax row) = l)
              (concat (map (\<lambda>dt. zip (valid_outputs toy_net ?m dt) (batch_labels dt)) ?vs))))
            / real (length (concat (map batch_labels ?vs)))) = 50"
    by code_simp
  from epoch_validation_report [OF h1 h2 h3 h4 h5 h6 h7] obtain bs vs st' where
    r: "train_loader (\<lambda>s. s) (\<lambda>p. Some p) toy_six (toy_shuffle 0) = map Inr bs"
       "val_loader (\<lambda>s. s) (\<lambda>p. Some p) toy_valid_set = map Inr vs"
       "?run (Suc 0) notebook0 = (st', None)"
       "(let m = after_batches toy_net (epoch_init notebook0 0) bs (length bs);
             val_losses = map (\<lambda>dt. criterion toy_net (valid_outputs toy_net m dt) (batch_labels dt)) vs;
             scored = concat (map (\<lambda>dt. zip (valid_outputs toy_net m dt) (batch_labels dt)) vs);
             correct = length (filter (\<lambda>(row, l). int (argmax row) = l) scored);
             n = length (concat (map batch_labels vs))
         in stdout st'
              = stdout notebook0
                  @ [EpochNumber (0 + 1),
                     TrainingLoss (sum_list (train_losses toy_net (epoch_init notebook0 0) bs)
                                   / real (FlowerDataset_len toy_six)),
                     ValidationLoss (sum_list val_losses / real n),
                     ValidationAccuracy (100 * (real correct / real n))])"
    by blast
  have "map Inr bs = (map Inr ?bs :: (py_error + string batch) list)"
    by (rule trans [OF r(1) [symmetric] b])
  then have bs: "bs = ?bs"
    by (rule map_injective) simp
  have "map Inr vs = (map Inr ?vs :: (py_error + string batch) list)"
    by (rule trans [OF r(2) [symmetric] v])
  then have vs: "vs = ?vs"
    by (rule map_injective) simp
  have "stdout st' = [EpochNumber 1, TrainingLoss (1 / 15), ValidationLoss (1 / 2),
                       ValidationAccuracy 50]"
    using r(4) unfolding bs vs Let_def o l vlo a by simp
  with r(3) h1 h2 h3 k show ?thesis
    by auto
qed

end
